theory Spec2Isabelle
  imports Main "HOL-Library.AList"
begin

section \<open>Environment: configuration, clock readings, HTTP outcomes\<close>

text \<open>
  The embedding follows \<^verbatim>\<open>src/services/palabraOAuthService.js\<close> (the classes
  \<^verbatim>\<open>PalabraOAuthService\<close> and \<^verbatim>\<open>PalabraSessionService\<close>) and the class
  \<^verbatim>\<open>PalabraAgoraService\<close>. Everything the code obtains from outside is an explicit
  input of the model:
  \<^item> every call of \<^verbatim>\<open>Date.now()\<close> is its own reading (an \<open>int\<close>, milliseconds), named
    after the place that reads it;
  \<^item> every \<^verbatim>\<open>await axios...\<close> is answered by an \<open>axios_result\<close>: the promise is either
    fulfilled with the response data or rejected (axios rejects on a status outside 2xx,
    on a network error and on timeout; the code passes no \<^verbatim>\<open>validateStatus\<close>);
  \<^item> every request handed to axios is appended to the log \<open>outbound\<close> of the world.
  Numbers are whole numbers (\<open>int\<close>): the clock readings, \<^verbatim>\<open>expires_in\<close>, the configured
  timeout and maximum. The code computes with doubles; on whole numbers its sums and
  products are exact as long as the values stay below \<open>2 ^ 53\<close> in magnitude, which
  every value that is a valid time (below) does. A number that is \<^verbatim>\<open>NaN\<close> is \<open>NaN\<close> of
  \<open>jsnum\<close>.
  An \<^verbatim>\<open>async\<close> function is split at its \<^verbatim>\<open>await\<close>s: one definition for the code that
  runs up to the suspension, one for the code that runs when the answer arrives. The
  definition named after the source function composes the parts with nothing in between,
  which is a call that no other call overlaps.
\<close>

record config =
  clientId :: "string option"
  clientSecret :: "string option"
  baseUrl :: string
  cacheTimeout :: int
  maxSessions :: int

text \<open>JavaScript truthiness of a value that is a string or \<^verbatim>\<open>undefined\<close>/\<^verbatim>\<open>null\<close>.\<close>

definition truthy :: "string option \<Rightarrow> bool" where
  "truthy v = (case v of None \<Rightarrow> False | Some s \<Rightarrow> s \<noteq> [])"

datatype axios_error = BadStatus nat | NoResponse

datatype 'a axios_result = Fulfilled 'a | Rejected axios_error

text \<open>
  \<^verbatim>\<open>new Date(v).toISOString()\<close> throws a \<^verbatim>\<open>RangeError\<close> ("Invalid time value") unless \<open>v\<close>
  is a number within 8.64e15 milliseconds of the epoch.
\<close>

definition valid_time :: "int \<Rightarrow> bool" where
  "valid_time v = (\<bar>v\<bar> \<le> 8640000000000000)"

datatype jsnum = NaN | Num int

fun valid_date :: "jsnum \<Rightarrow> bool" where
  "valid_date NaN = False"
| "valid_date (Num v) = valid_time v"

text \<open>
  JSON values and objects, for the \<^verbatim>\<open>options\<close> argument: an object is the list of its own
  properties in insertion order (keys distinct); \<open>JObject\<close> stands for any nested object
  or array. \<^verbatim>\<open>o.k\<close> is \<open>get_prop o k\<close>, \<^verbatim>\<open>x || d\<close> is \<open>js_or x d\<close>, and \<open>spread b o\<close> is
  the object literal \<^verbatim>\<open>{ ...b, ...o }\<close>: a key of \<open>o\<close> that \<open>b\<close> has is rewritten in
  place, any other is added at the end.
\<close>

datatype jsval = JUndefined | JNull | JBool bool | JNum int | JStr string | JObject

type_synonym js_object = "(string \<times> jsval) list"

fun truthy_val :: "jsval \<Rightarrow> bool" where
  "truthy_val JUndefined = False"
| "truthy_val JNull = False"
| "truthy_val (JBool b) = b"
| "truthy_val (JNum n) = (n \<noteq> 0)"
| "truthy_val (JStr s) = (s \<noteq> [])"
| "truthy_val JObject = True"

definition get_prop :: "js_object \<Rightarrow> string \<Rightarrow> jsval" where
  "get_prop obj k = (case map_of obj k of None \<Rightarrow> JUndefined | Some v \<Rightarrow> v)"

definition js_or :: "jsval \<Rightarrow> jsval \<Rightarrow> jsval" where
  "js_or x d = (if truthy_val x then x else d)"

definition spread :: "js_object \<Rightarrow> js_object \<Rightarrow> js_object" where
  "spread b obj = fold (\<lambda>(k, v). AList.update k v) obj b"

section \<open>Data model\<close>

text \<open>
  The \<^verbatim>\<open>options\<close> parameter of \<^verbatim>\<open>createSession\<close> is an object or \<^verbatim>\<open>null\<close> (\<open>None\<close>); the
  default \<^verbatim>\<open>{}\<close> replaces \<^verbatim>\<open>undefined\<close> only, which is \<open>Some []\<close> here.
\<close>

record session =
  sessionId :: string
  channel :: string
  sourceLanguage :: string
  targetLanguage :: string
  streamUrl :: "string option"
  websocketUrl :: "string option"
  status :: string
  createdAt :: int
  expiresAt :: int
  options :: "js_object option"
  accessToken :: string

text \<open>
  What \<^verbatim>\<open>storeTask\<close> reads of the provider's answer: \<^verbatim>\<open>taskInfo?.data?.task_id\<close> and
  \<^verbatim>\<open>taskInfo?.task_id\<close>.
\<close>

record task_info =
  data_task_id :: "string option"
  top_task_id :: "string option"

record task =
  taskId :: string
  taskInfo :: task_info
  taskCreatedAt :: int

datatype request =
    TokenPost
  | SessionsPost js_object string
  | SessionsDelete string string
  | AgoraTranslationsDelete string

text \<open>
  The three singletons of the process: the token cache of \<^verbatim>\<open>PalabraOAuthService\<close>,
  the \<^verbatim>\<open>activeSessions\<close> map of \<^verbatim>\<open>PalabraSessionService\<close>, the \<^verbatim>\<open>activeTasks\<close> map of
  \<^verbatim>\<open>PalabraAgoraService\<close>. A JavaScript \<^verbatim>\<open>Map\<close> keeps insertion order, so it is an
  association list: \<^verbatim>\<open>get\<close> is \<open>map_of\<close>, \<^verbatim>\<open>set\<close> is \<open>AList.update\<close> (in place for a
  key that is there, at the end otherwise), \<^verbatim>\<open>delete\<close> is \<open>AList.delete\<close>, \<^verbatim>\<open>size\<close>
  is \<open>length\<close>.
\<close>

record world =
  cachedToken :: "string option"
  tokenExpiry :: "jsnum option"
  activeSessions :: "(string \<times> session) list"
  activeTasks :: "(string \<times> task) list"
  outbound :: "request list"

definition initial_world :: world where
  "initial_world = \<lparr>cachedToken = None, tokenExpiry = None, activeSessions = [],
     activeTasks = [], outbound = []\<rparr>"

section \<open>PalabraOAuthService\<close>

datatype token_failure =
    OAuthNotConfigured
  | TokenRequestRejected axios_error
  | TokenResponseTypeError
  | InvalidTokenResponse
  | TokenExpiryRangeError

text \<open>The error rethrown by the \<^verbatim>\<open>catch\<close> block of \<^verbatim>\<open>getValidToken\<close>.\<close>

datatype oauth_error = OAuthTokenRequestFailed token_failure

text \<open>
  The data of the token endpoint's answer; \<^verbatim>\<open>response.data\<close> that is \<^verbatim>\<open>null\<close> is \<open>None\<close>
  in the reply. A missing \<^verbatim>\<open>access_token\<close> is the empty string here (both are falsy at
  line 90). \<^verbatim>\<open>expires_in\<close> is \<open>Some e\<close> when the field is the whole number \<open>e\<close> (of
  seconds), and \<open>None\<close> when it is missing or not a number, so that
  \<^verbatim>\<open>token.expires_in * 1000\<close> is \<^verbatim>\<open>NaN\<close>. A number of seconds that is not whole is not
  represented.
\<close>

record token_response =
  access_token :: string
  expires_in :: "int option"

definition isAvailable :: "config \<Rightarrow> bool" where
  "isAvailable cfg = (truthy (clientId cfg) \<and> truthy (clientSecret cfg))"

text \<open>
  The test of line 36, \<^verbatim>\<open>this.cachedToken && this.tokenExpiry && Date.now() < this.tokenExpiry\<close>:
  the token when the test passes. A number is truthy when it is neither 0 nor \<^verbatim>\<open>NaN\<close>, and
  no number is below \<^verbatim>\<open>NaN\<close>.
\<close>

definition cached_hit :: "world \<Rightarrow> int \<Rightarrow> string option" where
  "cached_hit w now =
     (case cachedToken w of
        None \<Rightarrow> None
      | Some tok \<Rightarrow>
          (case tokenExpiry w of
             None \<Rightarrow> None
           | Some NaN \<Rightarrow> None
           | Some (Num e) \<Rightarrow> if tok \<noteq> [] \<and> e \<noteq> 0 \<and> now < e then Some tok else None))"

text \<open>\<^verbatim>\<open>requestNewToken\<close> up to \<^verbatim>\<open>await axios.post\<close>: \<open>Some f\<close> when it has thrown.\<close>

definition requestNewToken_begin :: "config \<Rightarrow> world \<Rightarrow> token_failure option \<times> world" where
  "requestNewToken_begin cfg w =
     (if \<not> isAvailable cfg then (Some OAuthNotConfigured, w)
      else (None, w\<lparr>outbound := outbound w @ [TokenPost]\<rparr>))"

text \<open>
  \<^verbatim>\<open>requestNewToken\<close> when the answer arrives: \<^verbatim>\<open>response.data.access_token\<close> throws a
  \<^verbatim>\<open>TypeError\<close> on \<^verbatim>\<open>null\<close> data.
\<close>

definition requestNewToken_resume ::
  "token_response option axios_result \<Rightarrow> token_failure + token_response" where
  "requestNewToken_resume reply =
     (case reply of
        Rejected e \<Rightarrow> Inl (TokenRequestRejected e)
      | Fulfilled None \<Rightarrow> Inl TokenResponseTypeError
      | Fulfilled (Some d) \<Rightarrow> if access_token d = [] then Inl InvalidTokenResponse else Inr d)"

text \<open>
  \<^verbatim>\<open>getValidToken\<close> up to \<^verbatim>\<open>await this.requestNewToken()\<close>; \<open>now\<close> is the reading of
  line 36. \<open>Some r\<close>: the call has settled with \<open>r\<close>; \<open>None\<close>: it waits for the answer
  to the token request it has just issued.
\<close>

definition getValidToken_begin ::
  "config \<Rightarrow> world \<Rightarrow> int \<Rightarrow> (oauth_error + string) option \<times> world" where
  "getValidToken_begin cfg w now =
     (case cached_hit w now of
        Some tok \<Rightarrow> (Some (Inr tok), w)
      | None \<Rightarrow>
          (case requestNewToken_begin cfg w of
             (Some f, w') \<Rightarrow> (Some (Inl (OAuthTokenRequestFailed f)), w')
           | (None, w') \<Rightarrow> (None, w')))"

text \<open>
  Line 47, \<^verbatim>\<open>Date.now() + (token.expires_in * 1000) - (5 * 60 * 1000)\<close>.
\<close>

definition token_expiry :: "int \<Rightarrow> int option \<Rightarrow> jsnum" where
  "token_expiry now e =
     (case e of None \<Rightarrow> NaN | Some secs \<Rightarrow> Num (now + secs * 1000 - 5 * 60 * 1000))"

text \<open>
  \<^verbatim>\<open>getValidToken\<close> when the answer arrives; \<open>now\<close> is the reading of line 47. Lines 46-47
  write the cache; the log statement of lines 49-52 then evaluates
  \<^verbatim>\<open>new Date(this.tokenExpiry).toISOString()\<close> inside the \<^verbatim>\<open>try\<close>, so an expiry that is not
  a valid time sends the call to the \<^verbatim>\<open>catch\<close> block with the cache already written.
\<close>

definition getValidToken_resume ::
  "world \<Rightarrow> int \<Rightarrow> token_response option axios_result \<Rightarrow> (oauth_error + string) \<times> world" where
  "getValidToken_resume w now reply =
     (case requestNewToken_resume reply of
        Inl f \<Rightarrow> (Inl (OAuthTokenRequestFailed f), w)
      | Inr d \<Rightarrow>
          (let w' = w\<lparr>cachedToken := Some (access_token d),
                      tokenExpiry := Some (token_expiry now (expires_in d))\<rparr>
           in if valid_date (token_expiry now (expires_in d)) then (Inr (access_token d), w')
              else (Inl (OAuthTokenRequestFailed TokenExpiryRangeError), w')))"

record token_env =
  t_check :: int
  t_cache :: int
  token_reply :: "token_response option axios_result"

definition getValidToken ::
  "config \<Rightarrow> world \<Rightarrow> token_env \<Rightarrow> (oauth_error + string) \<times> world" where
  "getValidToken cfg w env =
     (case getValidToken_begin cfg w (t_check env) of
        (Some r, w') \<Rightarrow> (r, w')
      | (None, w') \<Rightarrow> getValidToken_resume w' (t_cache env) (token_reply env))"

definition clearCachedToken :: "world \<Rightarrow> world" where
  "clearCachedToken w = w\<lparr>cachedToken := None, tokenExpiry := None\<rparr>"

text \<open>
  Callers that all run their synchronous part before any answer arrives: the world after
  the calls, whose readings of line 36 are \<open>nows\<close>, have each run up to their \<^verbatim>\<open>await\<close>.
\<close>

definition begin_all :: "config \<Rightarrow> world \<Rightarrow> int list \<Rightarrow> world" where
  "begin_all cfg w nows = fold (\<lambda>now v. snd (getValidToken_begin cfg v now)) nows w"

section \<open>PalabraSessionService: reads of the store\<close>

text \<open>\<^verbatim>\<open>getActiveSession(channel)\<close>; \<open>now\<close> is the reading of line 262.\<close>

definition getActiveSession :: "world \<Rightarrow> int \<Rightarrow> string \<Rightarrow> session option \<times> world" where
  "getActiveSession w now ch =
     (case map_of (activeSessions w) ch of
        None \<Rightarrow> (None, w)
      | Some s \<Rightarrow>
          if now \<ge> expiresAt s
          then (None, w\<lparr>activeSessions := AList.delete ch (activeSessions w)\<rparr>)
          else (Some s, w))"

text \<open>
  \<^verbatim>\<open>cleanupExpiredSessions()\<close>: one reading \<open>now\<close>, then a loop over the entries that
  deletes the expired ones from the map by key.
\<close>

fun cleanup_loop ::
  "int \<Rightarrow> (string \<times> session) list \<Rightarrow> (string \<times> session) list \<Rightarrow> (string \<times> session) list" where
  "cleanup_loop now [] m = m"
| "cleanup_loop now ((ch, s) # es) m =
     cleanup_loop now es (if now \<ge> expiresAt s then AList.delete ch m else m)"

definition cleanupExpiredSessions :: "world \<Rightarrow> int \<Rightarrow> world" where
  "cleanupExpiredSessions w now =
     w\<lparr>activeSessions := cleanup_loop now (activeSessions w) (activeSessions w)\<rparr>"

record session_summary =
  sm_channel :: string
  sm_sessionId :: string
  sm_sourceLanguage :: string
  sm_targetLanguage :: string
  sm_status :: string
  sm_createdAt :: int
  sm_expiresAt :: int

definition summary :: "string \<Rightarrow> session \<Rightarrow> session_summary" where
  "summary ch s = \<lparr>sm_channel = ch, sm_sessionId = sessionId s,
     sm_sourceLanguage = sourceLanguage s, sm_targetLanguage = targetLanguage s,
     sm_status = status s, sm_createdAt = createdAt s, sm_expiresAt = expiresAt s\<rparr>"

text \<open>
  \<^verbatim>\<open>getAllActiveSessions()\<close>: the loop reads the clock once per entry; \<open>clk i\<close> is the
  reading at the entry of index \<open>i\<close>. The function writes to nothing: the world it
  returns is the world it was given.
\<close>

fun list_loop :: "(nat \<Rightarrow> int) \<Rightarrow> nat \<Rightarrow> (string \<times> session) list \<Rightarrow> session_summary list" where
  "list_loop clk i [] = []"
| "list_loop clk i ((ch, s) # es) =
     (if clk i < expiresAt s then summary ch s # list_loop clk (Suc i) es
      else list_loop clk (Suc i) es)"

definition getAllActiveSessions :: "world \<Rightarrow> (nat \<Rightarrow> int) \<Rightarrow> session_summary list \<times> world" where
  "getAllActiveSessions w clk = (list_loop clk 0 (activeSessions w), w)"

text \<open>
  \<^verbatim>\<open>getSessionStatus(channel)\<close>: \<open>now_get\<close> is the reading inside \<^verbatim>\<open>getActiveSession\<close>,
  \<open>now_exp\<close> the one of line 338. \<^verbatim>\<open>x || null\<close> gives \<^verbatim>\<open>null\<close> for a falsy \<open>x\<close>.
\<close>

record session_status =
  hasSession :: bool
  st_sessionId :: "string option"
  st_status :: string
  st_sourceLanguage :: "string option"
  st_targetLanguage :: "string option"
  st_streamUrl :: "string option"
  st_websocketUrl :: "string option"
  st_createdAt :: "int option"
  snow_expiresAt :: "int option"
  isExpired :: bool

definition or_null_str :: "string \<Rightarrow> string option" where
  "or_null_str x = (if x = [] then None else Some x)"

definition or_null_opt :: "string option \<Rightarrow> string option" where
  "or_null_opt x = (if truthy x then x else None)"

definition or_null_num :: "int \<Rightarrow> int option" where
  "or_null_num x = (if x = 0 then None else Some x)"

definition getSessionStatus :: "world \<Rightarrow> int \<Rightarrow> int \<Rightarrow> string \<Rightarrow> session_status \<times> world" where
  "getSessionStatus w now_get now_exp ch =
     (case getActiveSession w now_get ch of
        (None, w') \<Rightarrow>
          (\<lparr>hasSession = False, st_sessionId = None, st_status = ''inactive'',
            st_sourceLanguage = None, st_targetLanguage = None, st_streamUrl = None,
            st_websocketUrl = None, st_createdAt = None, snow_expiresAt = None,
            isExpired = True\<rparr>, w')
      | (Some s, w') \<Rightarrow>
          (\<lparr>hasSession = True, st_sessionId = or_null_str (sessionId s),
            st_status = (if status s = [] then ''inactive'' else status s),
            st_sourceLanguage = or_null_str (sourceLanguage s),
            st_targetLanguage = or_null_str (targetLanguage s),
            st_streamUrl = or_null_opt (streamUrl s),
            st_websocketUrl = or_null_opt (websocketUrl s),
            st_createdAt = or_null_num (createdAt s),
            snow_expiresAt = or_null_num (expiresAt s),
            isExpired = (now_exp \<ge> expiresAt s)\<rparr>, w'))"

section \<open>PalabraSessionService.createSession\<close>

datatype session_failure =
    ServiceNotConfigured
  | MaxSessionsReached
  | TokenFailure oauth_error
  | OptionsTypeError
  | SessionRequestRejected axios_error
  | SessionResponseTypeError
  | InvalidSessionResponse
  | SessionExpiryRangeError

text \<open>The error rethrown by the \<^verbatim>\<open>catch\<close> block of \<^verbatim>\<open>createSession\<close>.\<close>

datatype session_error = SessionCreationFailed session_failure

text \<open>
  The data of the answer to \<^verbatim>\<open>POST /sessions\<close>; \<^verbatim>\<open>response.data\<close> that is \<^verbatim>\<open>null\<close> is
  \<open>None\<close> in the reply. A missing \<^verbatim>\<open>session_id\<close> is the empty string (both are falsy at
  line 207).
\<close>

record session_response =
  session_id :: string
  stream_url :: "string option"
  websocket_url :: "string option"

text \<open>
  The request body of lines 187-195: the six keys, then \<^verbatim>\<open>...options\<close>, which rewrites
  every key that \<^verbatim>\<open>options\<close> has too.
\<close>

definition sessionRequest :: "string \<Rightarrow> string \<Rightarrow> string \<Rightarrow> js_object \<Rightarrow> js_object" where
  "sessionRequest ch src tgt obj =
     spread
       [(''channel_name'', JStr ch),
        (''source_language'', JStr src),
        (''target_language'', JStr tgt),
        (''audio_format'', js_or (get_prop obj ''audioFormat'') (JStr ''pcm'')),
        (''sample_rate'', js_or (get_prop obj ''sampleRate'') (JNum 16000)),
        (''channels'', js_or (get_prop obj ''channels'') (JNum 1))]
       obj"

text \<open>
  Lines 157-184, up to \<^verbatim>\<open>await palabraOAuthService.getValidToken()\<close>. The readings:
  \<open>now_lookup\<close> in \<^verbatim>\<open>getActiveSession\<close>, \<open>now_sweep\<close> in \<^verbatim>\<open>cleanupExpiredSessions\<close>,
  \<open>now_check\<close> at line 36. \<open>Returned r\<close>: the call is over. \<open>AwaitToken p\<close>: it is
  suspended on \<^verbatim>\<open>getValidToken\<close>, which has settled with \<open>r\<close> (\<open>p = Some r\<close>) or waits
  for the token endpoint (\<open>p = None\<close>).
\<close>

datatype create_begin =
    Returned "session_error + session"
  | AwaitToken "(oauth_error + string) option"

definition createSession_begin ::
  "config \<Rightarrow> world \<Rightarrow> string \<Rightarrow> int \<Rightarrow> int \<Rightarrow> int \<Rightarrow> create_begin \<times> world" where
  "createSession_begin cfg w ch now_lookup now_sweep now_check =
     (if \<not> isAvailable cfg then (Returned (Inl (SessionCreationFailed ServiceNotConfigured)), w)
      else case getActiveSession w now_lookup ch of
        (Some existingSession, w1) \<Rightarrow> (Returned (Inr existingSession), w1)
      | (None, w1) \<Rightarrow>
          (let w2 = (if int (length (activeSessions w1)) \<ge> maxSessions cfg
                     then cleanupExpiredSessions w1 now_sweep else w1)
           in if int (length (activeSessions w1)) \<ge> maxSessions cfg
                 \<and> int (length (activeSessions w2)) \<ge> maxSessions cfg
              then (Returned (Inl (SessionCreationFailed MaxSessionsReached)), w2)
              else case getValidToken_begin cfg w2 now_check of
                     (p, w3) \<Rightarrow> (AwaitToken p, w3)))"

text \<open>
  Lines 184-205, when \<^verbatim>\<open>getValidToken\<close> has settled with \<open>tokres\<close>: the error goes to
  the \<^verbatim>\<open>catch\<close> block (\<open>Inl\<close>); with a token the request body is built, which throws a
  \<^verbatim>\<open>TypeError\<close> at \<^verbatim>\<open>options.audioFormat\<close> when \<^verbatim>\<open>options\<close> is \<^verbatim>\<open>null\<close>, and handed to
  \<^verbatim>\<open>POST /sessions\<close>, on whose answer the call then waits (\<open>Inr accessToken\<close>).
\<close>

definition createSession_token ::
  "world \<Rightarrow> string \<Rightarrow> string \<Rightarrow> string \<Rightarrow> js_object option \<Rightarrow> oauth_error + string
     \<Rightarrow> (session_error + string) \<times> world" where
  "createSession_token w ch src tgt opts tokres =
     (case tokres of
        Inl e \<Rightarrow> (Inl (SessionCreationFailed (TokenFailure e)), w)
      | Inr tok \<Rightarrow>
          (case opts of
             None \<Rightarrow> (Inl (SessionCreationFailed OptionsTypeError), w)
           | Some obj \<Rightarrow>
               (Inr tok,
                w\<lparr>outbound := outbound w @ [SessionsPost (sessionRequest ch src tgt obj) tok]\<rparr>)))"

text \<open>
  Lines 207-235, when the answer to \<^verbatim>\<open>POST /sessions\<close> arrives. \<open>now_created\<close> is the
  reading of line 220, \<open>now_expires\<close> the one of line 221. \<^verbatim>\<open>response.data.session_id\<close>
  throws a \<^verbatim>\<open>TypeError\<close> on \<^verbatim>\<open>null\<close> data. Line 226 stores the session; the log statement
  of lines 228-233 then evaluates \<^verbatim>\<open>new Date(sessionData.expiresAt).toISOString()\<close> inside
  the \<^verbatim>\<open>try\<close>, so an expiry that is not a valid time sends the call to the \<^verbatim>\<open>catch\<close>
  block with the session already stored.
\<close>

definition sessionData ::
  "config \<Rightarrow> string \<Rightarrow> string \<Rightarrow> string \<Rightarrow> js_object option \<Rightarrow> string \<Rightarrow> int \<Rightarrow> int
     \<Rightarrow> session_response \<Rightarrow> session" where
  "sessionData cfg ch src tgt opts tok now_created now_expires d =
     \<lparr>sessionId = session_id d, channel = ch, sourceLanguage = src,
      targetLanguage = tgt, streamUrl = stream_url d, websocketUrl = websocket_url d,
      status = ''active'', createdAt = now_created,
      expiresAt = now_expires + cacheTimeout cfg, options = opts, accessToken = tok\<rparr>"

definition createSession_finish ::
  "config \<Rightarrow> world \<Rightarrow> string \<Rightarrow> string \<Rightarrow> string \<Rightarrow> js_object option \<Rightarrow> string \<Rightarrow> int \<Rightarrow> int
     \<Rightarrow> session_response option axios_result \<Rightarrow> (session_error + session) \<times> world" where
  "createSession_finish cfg w ch src tgt opts tok now_created now_expires reply =
     (case reply of
        Rejected e \<Rightarrow> (Inl (SessionCreationFailed (SessionRequestRejected e)), w)
      | Fulfilled None \<Rightarrow> (Inl (SessionCreationFailed SessionResponseTypeError), w)
      | Fulfilled (Some d) \<Rightarrow>
          if session_id d = [] then (Inl (SessionCreationFailed InvalidSessionResponse), w)
          else
            (let w' = w\<lparr>activeSessions :=
                        AList.update ch
                          (sessionData cfg ch src tgt opts tok now_created now_expires d)
                          (activeSessions w)\<rparr>
             in if valid_time (now_expires + cacheTimeout cfg)
                then (Inr (sessionData cfg ch src tgt opts tok now_created now_expires d), w')
                else (Inl (SessionCreationFailed SessionExpiryRangeError), w')))"

text \<open>What the environment answers during one call of \<^verbatim>\<open>createSession\<close>.\<close>

record create_env =
  t_lookup :: int
  t_sweep :: int
  t_tokcheck :: int
  t_tokcache :: int
  tok_reply :: "token_response option axios_result"
  t_created :: int
  t_expires :: int
  session_reply :: "session_response option axios_result"

definition createSession ::
  "config \<Rightarrow> world \<Rightarrow> string \<Rightarrow> string \<Rightarrow> string \<Rightarrow> js_object option \<Rightarrow> create_env
     \<Rightarrow> (session_error + session) \<times> world" where
  "createSession cfg w ch src tgt opts env =
     (case createSession_begin cfg w ch (t_lookup env) (t_sweep env) (t_tokcheck env) of
        (Returned r, w1) \<Rightarrow> (r, w1)
      | (AwaitToken p, w1) \<Rightarrow>
          (case (case p of Some r \<Rightarrow> (r, w1)
                 | None \<Rightarrow> getValidToken_resume w1 (t_tokcache env) (tok_reply env)) of
             (tokres, w2) \<Rightarrow>
               (case createSession_token w2 ch src tgt opts tokres of
                  (Inl e, w3) \<Rightarrow> (Inl e, w3)
                | (Inr tok, w3) \<Rightarrow>
                    createSession_finish cfg w3 ch src tgt opts tok
                      (t_created env) (t_expires env) (session_reply env))))"

text \<open>
  Inputs with which a call that reaches the provider succeeds: \<^verbatim>\<open>options\<close> is an object,
  both answers carry what the code looks for, and the clock readings and the two
  expiries that the log statements format are valid times.
\<close>

definition answers_ok :: "config \<Rightarrow> js_object option \<Rightarrow> create_env \<Rightarrow> bool" where
  "answers_ok cfg opts env =
     (opts \<noteq> None
      \<and> (case tok_reply env of
            Fulfilled (Some d) \<Rightarrow>
              access_token d \<noteq> [] \<and> valid_date (token_expiry (t_tokcache env) (expires_in d))
          | Fulfilled None \<Rightarrow> False
          | Rejected _ \<Rightarrow> False)
      \<and> (case session_reply env of
            Fulfilled (Some d) \<Rightarrow> session_id d \<noteq> []
          | Fulfilled None \<Rightarrow> False
          | Rejected _ \<Rightarrow> False)
      \<and> valid_time (t_tokcache env) \<and> valid_time (t_expires env)
      \<and> valid_time (t_expires env + cacheTimeout cfg))"

section \<open>PalabraSessionService.endSession\<close>

text \<open>
  Up to \<^verbatim>\<open>await axios.delete\<close>: \<open>None\<close> when the call suspends, \<open>Some b\<close> when it has
  returned \<open>b\<close>.
\<close>

definition endSession_begin :: "world \<Rightarrow> string \<Rightarrow> bool option \<times> world" where
  "endSession_begin w ch =
     (case map_of (activeSessions w) ch of
        None \<Rightarrow> (Some False, w)
      | Some s \<Rightarrow>
          (None, w\<lparr>outbound := outbound w @ [SessionsDelete (sessionId s) (accessToken s)]\<rparr>))"

text \<open>After the \<^verbatim>\<open>await\<close>: the rest of the \<^verbatim>\<open>try\<close> block, or the \<^verbatim>\<open>catch\<close> block.\<close>

definition endSession_resume :: "world \<Rightarrow> string \<Rightarrow> unit axios_result \<Rightarrow> bool \<times> world" where
  "endSession_resume w ch reply =
     (case reply of
        Fulfilled _ \<Rightarrow> (True, w\<lparr>activeSessions := AList.delete ch (activeSessions w)\<rparr>)
      | Rejected _ \<Rightarrow> (False, w\<lparr>activeSessions := AList.delete ch (activeSessions w)\<rparr>))"

definition endSession :: "world \<Rightarrow> string \<Rightarrow> unit axios_result \<Rightarrow> bool \<times> world" where
  "endSession w ch reply =
     (case endSession_begin w ch of
        (Some b, w') \<Rightarrow> (b, w')
      | (None, w') \<Rightarrow> endSession_resume w' ch reply)"

section \<open>PalabraAgoraService.stopTranslationTask\<close>

datatype agora_error = AgoraNotConfigured

definition isConfigured :: "config \<Rightarrow> bool" where
  "isConfigured cfg = (truthy (clientId cfg) \<and> truthy (clientSecret cfg) \<and> baseUrl cfg \<noteq> [])"

definition getTask :: "world \<Rightarrow> string \<Rightarrow> task option" where
  "getTask w ch = map_of (activeTasks w) ch"

definition storeTask :: "world \<Rightarrow> string \<Rightarrow> task_info \<Rightarrow> int \<Rightarrow> world" where
  "storeTask w ch info now =
     (case (if truthy (data_task_id info) then data_task_id info else top_task_id info) of
        None \<Rightarrow> w
      | Some tid \<Rightarrow>
          if ch = [] \<or> tid = [] then w
          else w\<lparr>activeTasks :=
                   AList.update ch \<lparr>taskId = tid, taskInfo = info, taskCreatedAt = now\<rparr>
                     (activeTasks w)\<rparr>)"

definition stopTranslationTask ::
  "config \<Rightarrow> world \<Rightarrow> string \<Rightarrow> unit axios_result \<Rightarrow> (agora_error + bool) \<times> world" where
  "stopTranslationTask cfg w ch reply =
     (if \<not> isConfigured cfg then (Inl AgoraNotConfigured, w)
      else case getTask w ch of
        None \<Rightarrow> (Inr False, w)
      | Some stored \<Rightarrow>
          (let w1 = w\<lparr>outbound := outbound w @ [AgoraTranslationsDelete (taskId stored)]\<rparr>
           in case reply of
                Fulfilled _ \<Rightarrow> (Inr True, w1\<lparr>activeTasks := AList.delete ch (activeTasks w1)\<rparr>)
              | Rejected _ \<Rightarrow> (Inr False, w1\<lparr>activeTasks := AList.delete ch (activeTasks w1)\<rparr>)))"

section \<open>Runs of calls that do not overlap\<close>

text \<open>
  One call of a public method, with what the environment answers during it. A run
  applies the calls one after the other to the state the process starts with.
\<close>

datatype call =
    CreateSession string string string "js_object option" create_env
  | EndSession string "unit axios_result"
  | GetActiveSession int string
  | GetSessionStatus int int string
  | GetAllActiveSessions "nat \<Rightarrow> int"
  | CleanupExpiredSessions int
  | GetValidToken token_env
  | ClearCachedToken
  | StoreTask string task_info int
  | StopTranslationTask string "unit axios_result"

fun exec :: "config \<Rightarrow> world \<Rightarrow> call \<Rightarrow> world" where
  "exec cfg w (CreateSession ch src tgt opts env) = snd (createSession cfg w ch src tgt opts env)"
| "exec cfg w (EndSession ch reply) = snd (endSession w ch reply)"
| "exec cfg w (GetActiveSession now ch) = snd (getActiveSession w now ch)"
| "exec cfg w (GetSessionStatus t1 t2 ch) = snd (getSessionStatus w t1 t2 ch)"
| "exec cfg w (GetAllActiveSessions clk) = snd (getAllActiveSessions w clk)"
| "exec cfg w (CleanupExpiredSessions now) = cleanupExpiredSessions w now"
| "exec cfg w (GetValidToken env) = snd (getValidToken cfg w env)"
| "exec cfg w ClearCachedToken = clearCachedToken w"
| "exec cfg w (StoreTask ch info now) = storeTask w ch info now"
| "exec cfg w (StopTranslationTask ch reply) = snd (stopTranslationTask cfg w ch reply)"

definition run :: "config \<Rightarrow> call list \<Rightarrow> world" where
  "run cfg calls = foldl (exec cfg) initial_world calls"

text \<open>The requests of the log that start a session at the provider, and the token requests.\<close>

fun is_start_call :: "request \<Rightarrow> bool" where
  "is_start_call (SessionsPost _ _) = True"
| "is_start_call _ = False"

definition start_calls :: "world \<Rightarrow> nat" where
  "start_calls w = length (filter is_start_call (outbound w))"

definition token_requests :: "world \<Rightarrow> nat" where
  "token_requests w = length (filter (\<lambda>r. r = TokenPost) (outbound w))"

definition live_sessions :: "world \<Rightarrow> int \<Rightarrow> nat" where
  "live_sessions w now = length (filter (\<lambda>(ch, s). now < expiresAt s) (activeSessions w))"

section \<open>Concrete inputs\<close>

definition cfg0 :: config where
  "cfg0 = \<lparr>clientId = Some ''id'', clientSecret = Some ''secret'',
     baseUrl = ''https://api.palabra.ai'', cacheTimeout = 3600000, maxSessions = 100\<rparr>"

definition cfg_unset :: config where
  "cfg_unset = \<lparr>clientId = None, clientSecret = None,
     baseUrl = ''https://api.palabra.ai'', cacheTimeout = 3600000, maxSessions = 100\<rparr>"

definition cfg_one :: config where
  "cfg_one = cfg0\<lparr>maxSessions := 1\<rparr>"

definition opts0 :: "js_object option" where
  "opts0 = Some []"

definition session1 :: session where
  "session1 = \<lparr>sessionId = ''s1'', channel = ''room1'', sourceLanguage = ''en'',
     targetLanguage = ''es'', streamUrl = None, websocketUrl = None, status = ''active'',
     createdAt = 1000, expiresAt = 3601000, options = opts0, accessToken = ''tok''\<rparr>"

definition session2 :: session where
  "session2 = session1\<lparr>sessionId := ''s2'', channel := ''room2''\<rparr>"

definition world1 :: world where
  "world1 = initial_world\<lparr>activeSessions := [(''room1'', session1), (''room2'', session2)]\<rparr>"

definition task1 :: task where
  "task1 = \<lparr>taskId = ''t1'', taskInfo = \<lparr>data_task_id = None, top_task_id = Some ''t1''\<rparr>,
     taskCreatedAt = 1000\<rparr>"

definition world_tasks :: world where
  "world_tasks = initial_world\<lparr>activeTasks := [(''room1'', task1), (''room2'', task1)]\<rparr>"

definition token_ok :: "token_response option axios_result" where
  "token_ok = Fulfilled (Some \<lparr>access_token = ''tok'', expires_in = Some 3600\<rparr>)"

definition session_ok :: "string \<Rightarrow> session_response option axios_result" where
  "session_ok sid =
     Fulfilled (Some \<lparr>session_id = sid, stream_url = None, websocket_url = None\<rparr>)"

definition env0 :: create_env where
  "env0 = \<lparr>t_lookup = 1000, t_sweep = 1000, t_tokcheck = 1000, t_tokcache = 1000,
     tok_reply = token_ok, t_created = 1000, t_expires = 1000, session_reply = session_ok ''s1''\<rparr>"

text \<open>
  The clock ticks between line 220 and line 221: \<^verbatim>\<open>createdAt\<close> reads 1000,
  \<^verbatim>\<open>expiresAt\<close> reads 1001.
\<close>

definition env_tick :: create_env where
  "env_tick = env0\<lparr>t_expires := 1001\<rparr>"

text \<open>
  Two starts that overlap, with a maximum of one session. Both calls run up to their
  \<^verbatim>\<open>await\<close> (each finds the store empty and issues a token request) before the answers
  arrive; then each call gets its token, posts its start request and stores its session.
\<close>

definition ov1 :: world where
  "ov1 = snd (createSession_begin cfg_one initial_world ''room1'' 1000 1000 1000)"

definition ov2 :: world where
  "ov2 = snd (createSession_begin cfg_one ov1 ''room2'' 1001 1001 1001)"

definition ov3 :: world where
  "ov3 = snd (createSession_token (snd (getValidToken_resume ov2 1100 token_ok))
                ''room1'' ''en'' ''es'' opts0 (fst (getValidToken_resume ov2 1100 token_ok)))"

definition ov4 :: world where
  "ov4 = snd (createSession_token (snd (getValidToken_resume ov3 1101 token_ok))
                ''room2'' ''en'' ''fr'' opts0 (fst (getValidToken_resume ov3 1101 token_ok)))"

definition ov5 :: world where
  "ov5 = snd (createSession_finish cfg_one ov4 ''room1'' ''en'' ''es'' opts0 ''tok'' 1200 1200
                (session_ok ''s1''))"

definition ov6 :: world where
  "ov6 = snd (createSession_finish cfg_one ov5 ''room2'' ''en'' ''fr'' opts0 ''tok'' 1201 1201
                (session_ok ''s2''))"






section \<open>Stopping a session\<close>


lemma endSession_absent: "map_of (activeSessions w) ch = None \<Longrightarrow> endSession w ch reply = (False, w)"
  by (simp add: endSession_def endSession_begin_def)

lemma endSession_present:
  "map_of (activeSessions w) ch = Some s \<Longrightarrow>
     endSession w ch reply =
       ((case reply of Fulfilled _ \<Rightarrow> True | Rejected _ \<Rightarrow> False),
        w\<lparr>outbound := outbound w @ [SessionsDelete (sessionId s) (accessToken s)],
          activeSessions := AList.delete ch (activeSessions w)\<rparr>)"
  by (cases reply) (simp_all add: endSession_def endSession_begin_def endSession_resume_def)

lemma endSession_store:
  "activeSessions (snd (endSession w ch reply)) = AList.delete ch (activeSessions w)"
proof (cases "map_of (activeSessions w) ch")
  case None
  then have "ch \<notin> fst ` set (activeSessions w)" by (simp add: map_of_eq_None_iff)
  with None show ?thesis by (simp add: endSession_absent)
next
  case (Some s)
  then show ?thesis by (simp add: endSession_present)
qed

text \<open>
  Claim C3. Ending the session of a channel that has a stored session leaves no session
  for the channel in the store, whether the provider's answer to the delete request is a
  success or a failure. Ending the session of a channel that has none returns \<open>False\<close>
  (the "not found" result; the function never throws) and leaves the world, and with it
  the log of requests, as it was. A second stop therefore finds nothing, sends nothing
  and changes nothing.
\<close>

theorem endSession_removes_record:
  "(map_of (activeSessions w) ch = Some s \<longrightarrow>
      map_of (activeSessions (snd (endSession w ch reply))) ch = None
      \<and> outbound (snd (endSession w ch reply)) =
          outbound w @ [SessionsDelete (sessionId s) (accessToken s)])
   \<and> (map_of (activeSessions w) ch = None \<longrightarrow> endSession w ch reply = (False, w))
   \<and> endSession (snd (endSession w ch reply)) ch reply' = (False, snd (endSession w ch reply))"
proof -
  have gone: "map_of (activeSessions (snd (endSession w ch reply))) ch = None"
    by (simp add: endSession_store AList.delete_conv')
  show ?thesis
    using gone by (auto simp: endSession_present endSession_absent)
qed

theorem endSession_removes_record_witness:
  "map_of (activeSessions world1) ''room1'' = Some session1
   \<and> map_of (activeSessions (snd (endSession world1 ''room1'' (Rejected NoResponse)))) ''room1'' = None
   \<and> outbound (snd (endSession world1 ''room1'' (Rejected NoResponse))) = [SessionsDelete ''s1'' ''tok'']
   \<and> map_of (activeSessions initial_world) ''room1'' = None
   \<and> endSession initial_world ''room1'' (Fulfilled ()) = (False, initial_world)"
  using endSession_removes_record [of world1 "''room1''" session1 "Rejected NoResponse"]
    endSession_removes_record [of initial_world "''room1''" session1 "Fulfilled ()"]
  by (simp add: world1_def initial_world_def session1_def)

text \<open>
  Claim C10. Stopping channel \<open>c\<close> leaves the entry of every other channel \<open>c'\<close> as it
  was: \<^verbatim>\<open>endSession\<close> does not change what the session store holds for \<open>c'\<close> (the whole
  record: status, access token, expiry) and does not touch the task store;
  \<^verbatim>\<open>stopTranslationTask\<close> does not change what the task store holds for \<open>c'\<close> and does not
  touch the session store. This holds for every answer of the provider and whether or not
  \<open>c\<close> has an entry.
\<close>

theorem stop_frame:
  "c \<noteq> c' \<Longrightarrow>
     map_of (activeSessions (snd (endSession w c reply))) c' = map_of (activeSessions w) c'
     \<and> activeTasks (snd (endSession w c reply)) = activeTasks w
     \<and> map_of (activeTasks (snd (stopTranslationTask cfg w c reply))) c' = map_of (activeTasks w) c'
     \<and> activeSessions (snd (stopTranslationTask cfg w c reply)) = activeSessions w"
  by (cases "map_of (activeSessions w) c"; cases reply)
     (auto simp: endSession_absent endSession_present stopTranslationTask_def getTask_def Let_def
        split: option.splits)

theorem stop_frame_witness:
  "''room1'' \<noteq> ''room2''
   \<and> map_of (activeSessions (snd (endSession world1 ''room1'' (Rejected NoResponse)))) ''room2'' = Some session2
   \<and> map_of (activeTasks (snd (stopTranslationTask cfg0 world_tasks ''room1'' (Rejected NoResponse)))) ''room2'' = Some task1"
  using stop_frame [of "''room1''" "''room2''" world1 "Rejected NoResponse" cfg0]
    stop_frame [of "''room1''" "''room2''" world_tasks "Rejected NoResponse" cfg0]
  by (simp add: world1_def world_tasks_def initial_world_def)


section \<open>The result of stopTranslationTask\<close>

text \<open>
  Claim C9, as stated, fails: a task is stored for the channel and the provider answers
  the delete request with status 404 (axios rejects the promise); the function returns
  \<open>False\<close>, not \<open>True\<close>.
\<close>

theorem stopTask_not_found_counterexample:
  "getTask world_tasks ''room1'' = Some task1
   \<and> fst (stopTranslationTask cfg0 world_tasks ''room1'' (Rejected (BadStatus 404))) = Inr False"
  by (simp add: stopTranslationTask_def isConfigured_def truthy_def cfg0_def getTask_def
      world_tasks_def initial_world_def)

text \<open>
  Claim C9, amended. When the service is configured, \<^verbatim>\<open>stopTranslationTask\<close> returns a
  boolean; it is \<open>True\<close> exactly when a task is stored for the channel and the provider's
  delete call succeeds. Every failure of the provider call, "task not found" included,
  gives \<open>False\<close>. In both cases no task is stored for the channel afterwards. When the
  service is not configured the function throws and changes nothing.
\<close>

theorem stopTranslationTask_result:
  "(isConfigured cfg \<longrightarrow>
      (\<exists>b. fst (stopTranslationTask cfg w ch reply) = Inr b)
      \<and> (fst (stopTranslationTask cfg w ch reply) = Inr True
           \<longleftrightarrow> getTask w ch \<noteq> None \<and> (\<exists>u. reply = Fulfilled u))
      \<and> getTask (snd (stopTranslationTask cfg w ch reply)) ch = None)
   \<and> (\<not> isConfigured cfg \<longrightarrow> stopTranslationTask cfg w ch reply = (Inl AgoraNotConfigured, w))"
  by (cases reply)
     (auto simp: stopTranslationTask_def getTask_def Let_def AList.delete_conv'
        split: option.splits)

theorem stopTranslationTask_result_witness:
  "isConfigured cfg0
   \<and> fst (stopTranslationTask cfg0 world_tasks ''room1'' (Fulfilled ())) = Inr True
   \<and> fst (stopTranslationTask cfg0 world_tasks ''room1'' (Rejected (BadStatus 404))) \<noteq> Inr True
   \<and> getTask (snd (stopTranslationTask cfg0 world_tasks ''room1'' (Rejected (BadStatus 404)))) ''room1'' = None
   \<and> \<not> isConfigured cfg_unset
   \<and> stopTranslationTask cfg_unset world_tasks ''room1'' (Fulfilled ()) = (Inl AgoraNotConfigured, world_tasks)"
  using stopTranslationTask_result [of cfg0 world_tasks "''room1''" "Fulfilled ()"]
    stopTranslationTask_result [of cfg0 world_tasks "''room1''" "Rejected (BadStatus 404)"]
    stopTranslationTask_result [of cfg_unset world_tasks "''room1''" "Fulfilled ()"]
  by (simp add: isConfigured_def truthy_def cfg0_def cfg_unset_def getTask_def world_tasks_def
      initial_world_def)

section \<open>Reads of the session store\<close>

lemma list_loop_sound:
  "sm \<in> set (list_loop clk i es) \<Longrightarrow>
     \<exists>j<length es. sm = summary (fst (es ! j)) (snd (es ! j)) \<and> clk (i + j) < expiresAt (snd (es ! j))"
proof (induction es arbitrary: i)
  case Nil
  then show ?case by simp
next
  case (Cons e es)
  obtain ch s where e: "e = (ch, s)" by (cases e)
  show ?case
  proof (cases "sm = summary ch s \<and> clk i < expiresAt s")
    case True
    then have "sm = summary (fst ((e # es) ! 0)) (snd ((e # es) ! 0))
        \<and> clk (i + 0) < expiresAt (snd ((e # es) ! 0))"
      by (simp add: e)
    then show ?thesis by blast
  next
    case False
    with Cons.prems e have "sm \<in> set (list_loop clk (Suc i) es)"
      by (auto split: if_splits)
    from Cons.IH [OF this] obtain j where
      j: "j < length es" "sm = summary (fst (es ! j)) (snd (es ! j))"
         "clk (Suc i + j) < expiresAt (snd (es ! j))"
      by blast
    then have "Suc j < length (e # es)
        \<and> sm = summary (fst ((e # es) ! Suc j)) (snd ((e # es) ! Suc j))
        \<and> clk (i + Suc j) < expiresAt (snd ((e # es) ! Suc j))"
      by simp
    then show ?thesis by blast
  qed
qed

lemma list_loop_complete:
  "j < length es \<Longrightarrow> clk (i + j) < expiresAt (snd (es ! j)) \<Longrightarrow>
     summary (fst (es ! j)) (snd (es ! j)) \<in> set (list_loop clk i es)"
proof (induction es arbitrary: i j)
  case Nil
  then show ?case by simp
next
  case (Cons e es)
  obtain ch s where e: "e = (ch, s)" by (cases e)
  show ?case
  proof (cases j)
    case 0
    with Cons.prems e show ?thesis by simp
  next
    case (Suc k)
    with Cons.prems have "k < length es" "clk (Suc i + k) < expiresAt (snd (es ! k))"
      by simp_all
    from Cons.IH [OF this] show ?thesis
      by (simp add: e Suc)
  qed
qed

lemma summary_expiresAt [simp]: "sm_expiresAt (summary ch s) = expiresAt s"
  by (simp add: summary_def)

lemma getActiveSession_Some:
  "getActiveSession w now ch = (Some s, w') \<Longrightarrow>
     now < expiresAt s \<and> w' = w \<and> map_of (activeSessions w) ch = Some s"
  by (auto simp: getActiveSession_def split: option.splits if_splits)

lemma getActiveSession_live:
  "map_of (activeSessions w) ch = Some s \<Longrightarrow> now < expiresAt s \<Longrightarrow>
     getActiveSession w now ch = (Some s, w)"
  by (simp add: getActiveSession_def)

lemma getActiveSession_expired:
  "map_of (activeSessions w) ch = Some s \<Longrightarrow> expiresAt s \<le> now \<Longrightarrow>
     getActiveSession w now ch = (None, w\<lparr>activeSessions := AList.delete ch (activeSessions w)\<rparr>)"
  by (simp add: getActiveSession_def)

lemma getActiveSession_absent:
  "map_of (activeSessions w) ch = None \<Longrightarrow> getActiveSession w now ch = (None, w)"
  by (simp add: getActiveSession_def)

lemma getActiveSession_None:
  "getActiveSession w now ch = (None, w') \<Longrightarrow> map_of (activeSessions w') ch = None"
  by (auto simp: getActiveSession_def AList.delete_conv' split: option.splits if_splits)

text \<open>
  Claim C5, as stated, fails for the listing: with an expired session in the store,
  \<^verbatim>\<open>getAllActiveSessions\<close> leaves the session out of its result and leaves it in the store.
\<close>

theorem list_keeps_expired_counterexample:
  "map_of (activeSessions world1) ''room1'' = Some session1
   \<and> expiresAt session1 \<le> 4000000
   \<and> fst (getAllActiveSessions world1 (\<lambda>i. 4000000)) = []
   \<and> map_of (activeSessions (snd (getAllActiveSessions world1 (\<lambda>i. 4000000)))) ''room1''
       = Some session1"
  by (simp add: getAllActiveSessions_def world1_def initial_world_def session1_def session2_def)

text \<open>
  Claim C5, amended. \<^verbatim>\<open>getActiveSession\<close> returns a session only when the clock reading
  of its check is before the session's \<open>expiresAt\<close>, and then changes nothing; when it
  finds the stored session expired it reports absence and the channel has no entry
  afterwards. \<^verbatim>\<open>getAllActiveSessions\<close> lists exactly the stored sessions that the clock
  reading taken at their entry finds unexpired, and writes to nothing: it does not evict
  the expired sessions it skips.
\<close>

theorem reads_exclude_expired:
  "(getActiveSession w now ch = (Some s, w') \<longrightarrow>
      now < expiresAt s \<and> w' = w \<and> map_of (activeSessions w) ch = Some s)
   \<and> (map_of (activeSessions w) ch = Some s \<and> expiresAt s \<le> now \<longrightarrow>
        fst (getActiveSession w now ch) = None
        \<and> map_of (activeSessions (snd (getActiveSession w now ch))) ch = None)
   \<and> (\<forall>sm \<in> set (fst (getAllActiveSessions w clk)).
        \<exists>j<length (activeSessions w).
          sm = summary (fst (activeSessions w ! j)) (snd (activeSessions w ! j))
          \<and> clk j < sm_expiresAt sm)
   \<and> (\<forall>j<length (activeSessions w). clk j < expiresAt (snd (activeSessions w ! j)) \<longrightarrow>
        summary (fst (activeSessions w ! j)) (snd (activeSessions w ! j))
          \<in> set (fst (getAllActiveSessions w clk)))
   \<and> snd (getAllActiveSessions w clk) = w"
proof -
  have a: "getActiveSession w now ch = (Some s, w') \<longrightarrow>
      now < expiresAt s \<and> w' = w \<and> map_of (activeSessions w) ch = Some s"
    using getActiveSession_Some by blast
  have b: "map_of (activeSessions w) ch = Some s \<and> expiresAt s \<le> now \<longrightarrow>
        fst (getActiveSession w now ch) = None
        \<and> map_of (activeSessions (snd (getActiveSession w now ch))) ch = None"
    by (simp add: getActiveSession_expired AList.delete_conv')
  have c: "\<forall>sm \<in> set (fst (getAllActiveSessions w clk)).
        \<exists>j<length (activeSessions w).
          sm = summary (fst (activeSessions w ! j)) (snd (activeSessions w ! j))
          \<and> clk j < sm_expiresAt sm"
  proof
    fix sm assume "sm \<in> set (fst (getAllActiveSessions w clk))"
    then have "sm \<in> set (list_loop clk 0 (activeSessions w))"
      by (simp add: getAllActiveSessions_def)
    from list_loop_sound [OF this] show "\<exists>j<length (activeSessions w).
          sm = summary (fst (activeSessions w ! j)) (snd (activeSessions w ! j))
          \<and> clk j < sm_expiresAt sm"
      by auto
  qed
  have d: "\<forall>j<length (activeSessions w). clk j < expiresAt (snd (activeSessions w ! j)) \<longrightarrow>
        summary (fst (activeSessions w ! j)) (snd (activeSessions w ! j))
          \<in> set (fst (getAllActiveSessions w clk))"
    using list_loop_complete [of _ "activeSessions w" clk 0]
    by (simp add: getAllActiveSessions_def)
  have e: "snd (getAllActiveSessions w clk) = w"
    by (simp add: getAllActiveSessions_def)
  from a b c d e show ?thesis by blast
qed

theorem reads_exclude_expired_witness:
  "getActiveSession world1 2000 ''room1'' = (Some session1, world1)
   \<and> 2000 < expiresAt session1
   \<and> map_of (activeSessions world1) ''room1'' = Some session1 \<and> expiresAt session1 \<le> 4000000
   \<and> fst (getActiveSession world1 4000000 ''room1'') = None
   \<and> map_of (activeSessions (snd (getActiveSession world1 4000000 ''room1''))) ''room1'' = None
   \<and> fst (getAllActiveSessions world1 (\<lambda>i. if i = 0 then 2000 else 4000000))
       = [summary ''room1'' session1]"
  using reads_exclude_expired [of world1 2000 "''room1''" session1 world1 "\<lambda>i. 2000"]
    reads_exclude_expired [of world1 4000000 "''room1''" session1 world1 "\<lambda>i. 2000"]
  by (simp add: getActiveSession_def getAllActiveSessions_def world1_def initial_world_def
      session1_def session2_def)


section \<open>The token cache\<close>

lemma cached_hit_Some_iff:
  "cached_hit w now = Some tok \<longleftrightarrow>
     cachedToken w = Some tok \<and> tok \<noteq> []
     \<and> (\<exists>e. tokenExpiry w = Some (Num e) \<and> e \<noteq> 0 \<and> now < e)"
  by (auto simp: cached_hit_def split: option.splits jsnum.splits)

lemma cached_hit_outbound [simp]:
  "cached_hit (w\<lparr>outbound := x\<rparr>) now = cached_hit w now"
  by (simp add: cached_hit_def split: option.splits jsnum.splits)

lemma getValidToken_begin_hit:
  "cached_hit w now = Some tok \<Longrightarrow> getValidToken_begin cfg w now = (Some (Inr tok), w)"
  by (simp add: getValidToken_begin_def)

lemma getValidToken_begin_miss:
  "cached_hit w now = None \<Longrightarrow> isAvailable cfg \<Longrightarrow>
     getValidToken_begin cfg w now = (None, w\<lparr>outbound := outbound w @ [TokenPost]\<rparr>)"
  by (simp add: getValidToken_begin_def requestNewToken_begin_def)

lemma getValidToken_begin_unconfigured:
  "cached_hit w now = None \<Longrightarrow> \<not> isAvailable cfg \<Longrightarrow>
     getValidToken_begin cfg w now = (Some (Inl (OAuthTokenRequestFailed OAuthNotConfigured)), w)"
  by (simp add: getValidToken_begin_def requestNewToken_begin_def)

lemma getValidToken_resume_rejected:
  "getValidToken_resume w now (Rejected e)
     = (Inl (OAuthTokenRequestFailed (TokenRequestRejected e)), w)"
  by (simp add: getValidToken_resume_def requestNewToken_resume_def)

lemma getValidToken_resume_null:
  "getValidToken_resume w now (Fulfilled None)
     = (Inl (OAuthTokenRequestFailed TokenResponseTypeError), w)"
  by (simp add: getValidToken_resume_def requestNewToken_resume_def)

lemma getValidToken_resume_invalid:
  "access_token d = [] \<Longrightarrow>
     getValidToken_resume w now (Fulfilled (Some d))
       = (Inl (OAuthTokenRequestFailed InvalidTokenResponse), w)"
  by (simp add: getValidToken_resume_def requestNewToken_resume_def)

lemma getValidToken_resume_ok:
  "access_token d \<noteq> [] \<Longrightarrow> valid_date (token_expiry now (expires_in d)) \<Longrightarrow>
     getValidToken_resume w now (Fulfilled (Some d))
       = (Inr (access_token d),
          w\<lparr>cachedToken := Some (access_token d),
            tokenExpiry := Some (token_expiry now (expires_in d))\<rparr>)"
  by (simp add: getValidToken_resume_def requestNewToken_resume_def)

lemma getValidToken_resume_range:
  "access_token d \<noteq> [] \<Longrightarrow> \<not> valid_date (token_expiry now (expires_in d)) \<Longrightarrow>
     getValidToken_resume w now (Fulfilled (Some d))
       = (Inl (OAuthTokenRequestFailed TokenExpiryRangeError),
          w\<lparr>cachedToken := Some (access_token d),
            tokenExpiry := Some (token_expiry now (expires_in d))\<rparr>)"
  by (simp add: getValidToken_resume_def requestNewToken_resume_def)

text \<open>
  Claim C7, as stated, fails at two inputs. With no cached token and the client
  credentials not configured, \<^verbatim>\<open>getValidToken\<close> performs no token request. And with a
  cached token whose stored expiry is 5000000, at the reading 4800000, which is before the
  stored expiry but not before the stored expiry minus the five minutes, it returns the
  cached token and performs no token request: the margin is subtracted once, when the
  token is cached, and not again at the test.
\<close>

theorem getValidToken_counterexample:
  "cached_hit initial_world 1000 = None
   \<and> outbound (snd (getValidToken cfg_unset initial_world
        \<lparr>t_check = 1000, t_cache = 1000, token_reply = token_ok\<rparr>)) = []
   \<and> \<not> (4800000 < (5000000::int) - 5 * 60 * 1000)
   \<and> getValidToken cfg0
        (initial_world\<lparr>cachedToken := Some ''old'', tokenExpiry := Some (Num 5000000)\<rparr>)
        \<lparr>t_check = 4800000, t_cache = 4800000, token_reply = token_ok\<rparr>
       = (Inr ''old'',
          initial_world\<lparr>cachedToken := Some ''old'', tokenExpiry := Some (Num 5000000)\<rparr>)"
  by (simp add: getValidToken_def getValidToken_begin_def requestNewToken_begin_def
      cached_hit_def isAvailable_def truthy_def cfg_unset_def initial_world_def)

text \<open>
  Claim C7, amended. The test of line 36 passes exactly when a token is cached (a
  non-empty string, with an expiry that is a number other than 0) and the clock reading
  is before the stored expiry, which already has the five minutes subtracted; then the
  cached token is returned and nothing else happens. Otherwise, when the client
  credentials are configured, exactly one token request is issued. On an answer that
  carries a token and a whole number \<open>e\<close> of seconds, with the clock reading \<open>now\<close> of
  line 47 and the new expiry \<open>now + e * 1000 - 5 * 60 * 1000\<close> both valid times, the call
  returns the token and the cache holds the token with that expiry. When the request is
  rejected, or its answer has no data or no token, the error is returned and the cached
  token and expiry are as before. Otherwise, when the credentials are not configured, no
  request is issued, the call fails and the cache is as before. (Nothing is said here of
  an answer whose expiry is not a valid time.)
\<close>

theorem getValidToken_cache:
  "(cached_hit w now = Some tok \<longleftrightarrow>
      cachedToken w = Some tok \<and> tok \<noteq> []
      \<and> (\<exists>e. tokenExpiry w = Some (Num e) \<and> e \<noteq> 0 \<and> now < e))
   \<and> (cached_hit w (t_check env) = Some tok \<longrightarrow> getValidToken cfg w env = (Inr tok, w))
   \<and> (cached_hit w (t_check env) = None \<and> isAvailable cfg \<longrightarrow>
        outbound (snd (getValidToken cfg w env)) = outbound w @ [TokenPost]
        \<and> (\<forall>d e. token_reply env = Fulfilled (Some d) \<and> access_token d \<noteq> []
                  \<and> expires_in d = Some e \<and> valid_time (t_cache env)
                  \<and> valid_time (t_cache env + e * 1000 - 5 * 60 * 1000) \<longrightarrow>
              fst (getValidToken cfg w env) = Inr (access_token d)
              \<and> cachedToken (snd (getValidToken cfg w env)) = Some (access_token d)
              \<and> tokenExpiry (snd (getValidToken cfg w env))
                  = Some (Num (t_cache env + e * 1000 - 5 * 60 * 1000)))
        \<and> (\<forall>d. token_reply env = Fulfilled (Some d) \<and> access_token d = [] \<longrightarrow>
              fst (getValidToken cfg w env) = Inl (OAuthTokenRequestFailed InvalidTokenResponse)
              \<and> cachedToken (snd (getValidToken cfg w env)) = cachedToken w
              \<and> tokenExpiry (snd (getValidToken cfg w env)) = tokenExpiry w)
        \<and> (token_reply env = Fulfilled None \<longrightarrow>
              fst (getValidToken cfg w env) = Inl (OAuthTokenRequestFailed TokenResponseTypeError)
              \<and> cachedToken (snd (getValidToken cfg w env)) = cachedToken w
              \<and> tokenExpiry (snd (getValidToken cfg w env)) = tokenExpiry w)
        \<and> (\<forall>e. token_reply env = Rejected e \<longrightarrow>
              fst (getValidToken cfg w env) = Inl (OAuthTokenRequestFailed (TokenRequestRejected e))
              \<and> cachedToken (snd (getValidToken cfg w env)) = cachedToken w
              \<and> tokenExpiry (snd (getValidToken cfg w env)) = tokenExpiry w))
   \<and> (cached_hit w (t_check env) = None \<and> \<not> isAvailable cfg \<longrightarrow>
        getValidToken cfg w env = (Inl (OAuthTokenRequestFailed OAuthNotConfigured), w))"
proof -
  have hit: "cached_hit w (t_check env) = Some tok \<longrightarrow> getValidToken cfg w env = (Inr tok, w)"
    by (simp add: getValidToken_def getValidToken_begin_hit)
  have off: "cached_hit w (t_check env) = None \<and> \<not> isAvailable cfg \<longrightarrow>
        getValidToken cfg w env = (Inl (OAuthTokenRequestFailed OAuthNotConfigured), w)"
    by (simp add: getValidToken_def getValidToken_begin_unconfigured)
  have miss: "getValidToken cfg w env
      = getValidToken_resume (w\<lparr>outbound := outbound w @ [TokenPost]\<rparr>) (t_cache env) (token_reply env)"
    if "cached_hit w (t_check env) = None" "isAvailable cfg"
    using that by (simp add: getValidToken_def getValidToken_begin_miss)
  have req: "cached_hit w (t_check env) = None \<and> isAvailable cfg \<longrightarrow>
        outbound (snd (getValidToken cfg w env)) = outbound w @ [TokenPost]"
    by (cases "token_reply env")
       (auto simp: miss getValidToken_resume_def requestNewToken_resume_def Let_def
          split: option.splits)
  have ok: "fst (getValidToken cfg w env) = Inr (access_token d)
              \<and> cachedToken (snd (getValidToken cfg w env)) = Some (access_token d)
              \<and> tokenExpiry (snd (getValidToken cfg w env))
                  = Some (Num (t_cache env + e * 1000 - 5 * 60 * 1000))"
    if "cached_hit w (t_check env) = None" "isAvailable cfg"
      "token_reply env = Fulfilled (Some d)" "access_token d \<noteq> []" "expires_in d = Some e"
      "valid_time (t_cache env + e * 1000 - 5 * 60 * 1000)" for d e
    using that by (simp add: miss getValidToken_resume_ok token_expiry_def)
  show ?thesis
    using hit off req ok
    by (auto simp: cached_hit_Some_iff miss getValidToken_resume_invalid
        getValidToken_resume_null getValidToken_resume_rejected)
qed

theorem getValidToken_cache_witness:
  "cached_hit (initial_world\<lparr>cachedToken := Some ''old'', tokenExpiry := Some (Num 5000)\<rparr>) 1000
     = Some ''old''
   \<and> getValidToken cfg0 (initial_world\<lparr>cachedToken := Some ''old'', tokenExpiry := Some (Num 5000)\<rparr>)
        \<lparr>t_check = 1000, t_cache = 1000, token_reply = token_ok\<rparr>
       = (Inr ''old'', initial_world\<lparr>cachedToken := Some ''old'', tokenExpiry := Some (Num 5000)\<rparr>)
   \<and> cached_hit (initial_world\<lparr>cachedToken := Some ''old'', tokenExpiry := Some (Num 5000)\<rparr>) 6000
       = None
   \<and> isAvailable cfg0
   \<and> valid_time 6100 \<and> valid_time (6100 + 3600 * 1000 - 5 * 60 * 1000)
   \<and> outbound (snd (getValidToken cfg0
        (initial_world\<lparr>cachedToken := Some ''old'', tokenExpiry := Some (Num 5000)\<rparr>)
        \<lparr>t_check = 6000, t_cache = 6100, token_reply = token_ok\<rparr>)) = [TokenPost]
   \<and> tokenExpiry (snd (getValidToken cfg0
        (initial_world\<lparr>cachedToken := Some ''old'', tokenExpiry := Some (Num 5000)\<rparr>)
        \<lparr>t_check = 6000, t_cache = 6100, token_reply = token_ok\<rparr>)) = Some (Num 3306100)
   \<and> cachedToken (snd (getValidToken cfg0
        (initial_world\<lparr>cachedToken := Some ''old'', tokenExpiry := Some (Num 5000)\<rparr>)
        \<lparr>t_check = 6000, t_cache = 6100, token_reply = Rejected NoResponse\<rparr>)) = Some ''old''
   \<and> \<not> isAvailable cfg_unset
   \<and> getValidToken cfg_unset initial_world \<lparr>t_check = 6000, t_cache = 6100, token_reply = token_ok\<rparr>
       = (Inl (OAuthTokenRequestFailed OAuthNotConfigured), initial_world)"
  using
    getValidToken_cache [of "initial_world\<lparr>cachedToken := Some ''old'', tokenExpiry := Some (Num 5000)\<rparr>"
      1000 "''old''" "\<lparr>t_check = 1000, t_cache = 1000, token_reply = token_ok\<rparr>" cfg0]
    getValidToken_cache [of "initial_world\<lparr>cachedToken := Some ''old'', tokenExpiry := Some (Num 5000)\<rparr>"
      6000 "''old''" "\<lparr>t_check = 6000, t_cache = 6100, token_reply = token_ok\<rparr>" cfg0]
    getValidToken_cache [of "initial_world\<lparr>cachedToken := Some ''old'', tokenExpiry := Some (Num 5000)\<rparr>"
      6000 "''old''" "\<lparr>t_check = 6000, t_cache = 6100, token_reply = Rejected NoResponse\<rparr>" cfg0]
    getValidToken_cache [of initial_world
      6000 "''old''" "\<lparr>t_check = 6000, t_cache = 6100, token_reply = token_ok\<rparr>" cfg_unset]
  by (simp add: cached_hit_def isAvailable_def truthy_def cfg0_def cfg_unset_def
      initial_world_def token_ok_def valid_time_def)

section \<open>Concurrent callers of getValidToken\<close>

lemma begin_all_miss:
  "isAvailable cfg \<Longrightarrow> \<forall>now \<in> set nows. cached_hit w now = None \<Longrightarrow>
     begin_all cfg w nows = w\<lparr>outbound := outbound w @ replicate (length nows) TokenPost\<rparr>"
proof (induction nows arbitrary: w)
  case Nil
  then show ?case by (simp add: begin_all_def)
next
  case (Cons now nows)
  let ?v = "w\<lparr>outbound := outbound w @ [TokenPost]\<rparr>"
  from Cons.prems have step: "getValidToken_begin cfg w now = (None, ?v)"
    by (simp add: getValidToken_begin_miss)
  from Cons.prems have "\<forall>t \<in> set nows. cached_hit ?v t = None" by simp
  from Cons.IH [OF Cons.prems(1) this]
  have "begin_all cfg ?v nows = ?v\<lparr>outbound := outbound ?v @ replicate (length nows) TokenPost\<rparr>" .
  moreover have "begin_all cfg w (now # nows) = begin_all cfg ?v nows"
    by (simp add: begin_all_def step)
  ultimately show ?case
    by (simp add: replicate_append_same)
qed

text \<open>
  Claim C1, as stated, fails: two callers that both reach line 36 while the cache is
  empty, before any answer has arrived, issue two token requests.
\<close>

theorem concurrent_refresh_counterexample:
  "cached_hit initial_world 1000 = None \<and> cached_hit initial_world 1001 = None
   \<and> token_requests (begin_all cfg0 initial_world [1000, 1001]) = 2"
  by (simp add: begin_all_def getValidToken_begin_def requestNewToken_begin_def cached_hit_def
      isAvailable_def truthy_def cfg0_def initial_world_def token_requests_def)

text \<open>
  Claim C1, amended. With the credentials configured, callers that all test the cache
  while it is absent or expired, before any answer has arrived, issue one token request
  each: \<open>N\<close> callers, \<open>N\<close> requests; the cache is untouched until an answer is
  processed. When an answer arrives the caller it belongs to gets a result that its own
  answer and its own clock reading (a valid time) determine, whatever the other callers
  have done to the cache meanwhile: the error of a rejected request, of an answer
  without data or without token, or of an expiry that is not a valid time, and otherwise
  the token of the answer.
\<close>

theorem concurrent_refresh_requests:
  "isAvailable cfg \<Longrightarrow> \<forall>now \<in> set nows. cached_hit w now = None \<Longrightarrow>
     outbound (begin_all cfg w nows) = outbound w @ replicate (length nows) TokenPost
     \<and> token_requests (begin_all cfg w nows) = token_requests w + length nows
     \<and> cachedToken (begin_all cfg w nows) = cachedToken w
     \<and> tokenExpiry (begin_all cfg w nows) = tokenExpiry w
     \<and> (valid_time t \<longrightarrow>
          fst (getValidToken_resume v t reply)
            = (case reply of
                 Rejected e \<Rightarrow> Inl (OAuthTokenRequestFailed (TokenRequestRejected e))
               | Fulfilled None \<Rightarrow> Inl (OAuthTokenRequestFailed TokenResponseTypeError)
               | Fulfilled (Some d) \<Rightarrow>
                   if access_token d = [] then Inl (OAuthTokenRequestFailed InvalidTokenResponse)
                   else if valid_date (token_expiry t (expires_in d)) then Inr (access_token d)
                   else Inl (OAuthTokenRequestFailed TokenExpiryRangeError)))"
  by (cases reply)
     (simp_all add: begin_all_miss token_requests_def getValidToken_resume_def
        requestNewToken_resume_def Let_def split: option.splits)

theorem concurrent_refresh_requests_witness:
  "isAvailable cfg0
   \<and> cached_hit initial_world 1000 = None \<and> cached_hit initial_world 1001 = None
   \<and> cached_hit initial_world 1002 = None \<and> valid_time 2000
   \<and> outbound (begin_all cfg0 initial_world [1000, 1001, 1002]) = [TokenPost, TokenPost, TokenPost]
   \<and> fst (getValidToken_resume (begin_all cfg0 initial_world [1000, 1001, 1002]) 2000
        (Rejected NoResponse)) = Inl (OAuthTokenRequestFailed (TokenRequestRejected NoResponse))
   \<and> fst (getValidToken_resume (begin_all cfg0 initial_world [1000, 1001, 1002]) 2000 token_ok)
       = Inr ''tok''"
  using concurrent_refresh_requests [where cfg = cfg0 and nows = "[1000, 1001, 1002]"
      and w = initial_world and v = "begin_all cfg0 initial_world [1000, 1001, 1002]"
      and t = 2000 and reply = "Rejected NoResponse"]
    concurrent_refresh_requests [where cfg = cfg0 and nows = "[1000, 1001, 1002]"
      and w = initial_world and v = "begin_all cfg0 initial_world [1000, 1001, 1002]"
      and t = 2000 and reply = token_ok]
  by (simp add: cached_hit_def isAvailable_def truthy_def cfg0_def initial_world_def
      numeral_3_eq_3 token_ok_def token_expiry_def valid_time_def)

section \<open>The sweep\<close>

lemma cleanup_loop_filter:
  "cleanup_loop now es m
     = filter (\<lambda>e. \<forall>s. (fst e, s) \<in> set es \<longrightarrow> now < expiresAt s) m"
proof (induction es arbitrary: m)
  case Nil
  then show ?case by simp
next
  case (Cons e es)
  obtain ch s where e: "e = (ch, s)" by (cases e)
  show ?case
  proof (cases "expiresAt s \<le> now")
    case True
    have "cleanup_loop now (e # es) m = cleanup_loop now es (AList.delete ch m)"
      using True by (simp add: e)
    also have "\<dots> = filter (\<lambda>x. fst x \<noteq> ch \<and> (\<forall>s. (fst x, s) \<in> set es \<longrightarrow> now < expiresAt s)) m"
      by (auto simp: Cons.IH AList.delete_eq case_prod_unfold intro: filter_cong)
    also have "\<dots> = filter (\<lambda>x. \<forall>s'. (fst x, s') \<in> set (e # es) \<longrightarrow> now < expiresAt s') m"
    proof (rule filter_cong [OF refl])
      fix x
      show "(fst x \<noteq> ch \<and> (\<forall>s. (fst x, s) \<in> set es \<longrightarrow> now < expiresAt s))
          = (\<forall>s'. (fst x, s') \<in> set (e # es) \<longrightarrow> now < expiresAt s')"
        using True by (auto simp: e)
    qed
    finally show ?thesis .
  next
    case False
    have "\<And>x. (\<forall>s'. (fst x, s') \<in> set (e # es) \<longrightarrow> now < expiresAt s')
        = (\<forall>s'. (fst x, s') \<in> set es \<longrightarrow> now < expiresAt s')"
      using False by (auto simp: e)
    then show ?thesis
      using False Cons.IH [of m] by (simp add: e)
  qed
qed

lemma cleanup_loop_length: "length (cleanup_loop now es m) \<le> length m"
  by (simp add: cleanup_loop_filter)

lemma cleanup_loop_map_of:
  "map_of m ch = None \<Longrightarrow> map_of (cleanup_loop now es m) ch = None"
  by (auto simp: cleanup_loop_filter map_of_eq_None_iff)

lemma filter_key_map_le: "map_of (filter (\<lambda>e. P (fst e)) m) \<subseteq>\<^sub>m map_of m"
proof -
  have "map_of (filter (\<lambda>e. P (fst e)) m) k = (if P k then map_of m k else None)" for k
    by (induction m) auto
  then show ?thesis by (auto simp: map_le_def)
qed

lemma cleanup_loop_map_le: "map_of (cleanup_loop now es m) \<subseteq>\<^sub>m map_of m"
  unfolding cleanup_loop_filter by (rule filter_key_map_le)

lemma delete_map_le: "map_of (AList.delete k al) \<subseteq>\<^sub>m map_of al"
  by (auto simp: map_le_def AList.delete_conv')

lemma cleanup_loop_expired_shrinks:
  assumes "(c, s) \<in> set m" "expiresAt s \<le> now"
  shows "length (cleanup_loop now m m) < length m"
proof -
  have "\<not> (\<forall>s'. (fst (c, s), s') \<in> set m \<longrightarrow> now < expiresAt s')"
    using assms by force
  with assms(1) show ?thesis
    unfolding cleanup_loop_filter by (intro length_filter_less)
qed

lemma cleanup_loop_live:
  "(c, s) \<in> set (cleanup_loop now m m) \<Longrightarrow> now < expiresAt s"
  by (force simp: cleanup_loop_filter)

section \<open>The parts of createSession\<close>

lemma start_calls_append:
  "start_calls (w\<lparr>outbound := outbound w @ [r]\<rparr>) = start_calls w + (if is_start_call r then 1 else 0)"
  by (simp add: start_calls_def)

lemma getValidToken_begin_frame:
  "getValidToken_begin cfg w now = (p, w') \<Longrightarrow>
     activeSessions w' = activeSessions w \<and> activeTasks w' = activeTasks w
     \<and> start_calls w' = start_calls w"
  by (auto simp: getValidToken_begin_def requestNewToken_begin_def start_calls_def
      split: option.splits if_splits)

lemma getValidToken_resume_frame:
  "getValidToken_resume w now reply = (r, w') \<Longrightarrow>
     activeSessions w' = activeSessions w \<and> activeTasks w' = activeTasks w
     \<and> outbound w' = outbound w"
  by (auto simp: getValidToken_resume_def Let_def split: sum.splits if_splits)

lemma getActiveSession_length:
  "length (activeSessions (snd (getActiveSession w now ch))) \<le> length (activeSessions w)"
  by (simp add: getActiveSession_def AList.length_delete_le split: option.splits)

lemma getActiveSession_map_le:
  "map_of (activeSessions (snd (getActiveSession w now ch))) \<subseteq>\<^sub>m map_of (activeSessions w)"
  by (simp add: getActiveSession_def delete_map_le split: option.splits)

lemma getActiveSession_frame:
  "outbound (snd (getActiveSession w now ch)) = outbound w
   \<and> activeTasks (snd (getActiveSession w now ch)) = activeTasks w
   \<and> cachedToken (snd (getActiveSession w now ch)) = cachedToken w
   \<and> tokenExpiry (snd (getActiveSession w now ch)) = tokenExpiry w"
  by (simp add: getActiveSession_def split: option.splits)

lemma createSession_begin_unconfigured:
  "\<not> isAvailable cfg \<Longrightarrow>
     createSession_begin cfg w ch t1 t2 t3 = (Returned (Inl (SessionCreationFailed ServiceNotConfigured)), w)"
  by (simp add: createSession_begin_def)

lemma createSession_begin_existing:
  "isAvailable cfg \<Longrightarrow> map_of (activeSessions w) ch = Some s \<Longrightarrow> t1 < expiresAt s \<Longrightarrow>
     createSession_begin cfg w ch t1 t2 t3 = (Returned (Inr s), w)"
  by (simp add: createSession_begin_def getActiveSession_live)

lemma createSession_begin_cases:
  assumes "createSession_begin cfg w ch t1 t2 t3 = (b, w1)"
  shows "start_calls w1 = start_calls w \<and> activeTasks w1 = activeTasks w
     \<and> length (activeSessions w1) \<le> length (activeSessions w)
     \<and> map_of (activeSessions w1) \<subseteq>\<^sub>m map_of (activeSessions w)
     \<and> (case b of
          Returned (Inl e) \<Rightarrow>
            (e = SessionCreationFailed ServiceNotConfigured \<and> \<not> isAvailable cfg \<and> w1 = w)
            \<or> (e = SessionCreationFailed MaxSessionsReached \<and> isAvailable cfg
                \<and> map_of (activeSessions w1) ch = None
                \<and> int (length (activeSessions w1)) \<ge> maxSessions cfg)
        | Returned (Inr s) \<Rightarrow>
            isAvailable cfg \<and> w1 = w \<and> map_of (activeSessions w) ch = Some s \<and> t1 < expiresAt s
        | AwaitToken p \<Rightarrow>
            isAvailable cfg \<and> map_of (activeSessions w1) ch = None
            \<and> int (length (activeSessions w1)) < maxSessions cfg
            \<and> (\<exists>v. getValidToken_begin cfg v t3 = (p, w1) \<and> activeSessions v = activeSessions w1))"
proof (cases "isAvailable cfg")
  case False
  with assms show ?thesis by (auto simp: createSession_begin_def)
next
  case True
  obtain r v1 where g: "getActiveSession w t1 ch = (r, v1)" by (cases "getActiveSession w t1 ch")
  have v1: "outbound v1 = outbound w" "activeTasks v1 = activeTasks w"
    "length (activeSessions v1) \<le> length (activeSessions w)"
    "map_of (activeSessions v1) \<subseteq>\<^sub>m map_of (activeSessions w)"
    using getActiveSession_frame [of w t1 ch] getActiveSession_length [of w t1 ch]
      getActiveSession_map_le [of w t1 ch] g by simp_all
  show ?thesis
  proof (cases r)
    case (Some s)
    with g have "t1 < expiresAt s \<and> v1 = w \<and> map_of (activeSessions w) ch = Some s"
      by (simp add: getActiveSession_Some)
    with assms True g Some show ?thesis by (auto simp: createSession_begin_def)
  next
    case None
    with g have absent: "map_of (activeSessions v1) ch = None"
      by (simp add: getActiveSession_None)
    define v2 where "v2 = (if int (length (activeSessions v1)) \<ge> maxSessions cfg
                     then cleanupExpiredSessions v1 t2 else v1)"
    have v2: "outbound v2 = outbound v1" "activeTasks v2 = activeTasks v1"
      "length (activeSessions v2) \<le> length (activeSessions v1)"
      "map_of (activeSessions v2) ch = None"
      "map_of (activeSessions v2) \<subseteq>\<^sub>m map_of (activeSessions v1)"
      using absent
      by (simp_all add: v2_def cleanupExpiredSessions_def cleanup_loop_length cleanup_loop_map_of
          cleanup_loop_map_le)
    have sub: "map_of (activeSessions v2) \<subseteq>\<^sub>m map_of (activeSessions w)"
      using v1(4) v2(5) by (rule map_le_trans [rotated])
    have eq: "createSession_begin cfg w ch t1 t2 t3 =
        (if int (length (activeSessions v1)) \<ge> maxSessions cfg
            \<and> int (length (activeSessions v2)) \<ge> maxSessions cfg
         then (Returned (Inl (SessionCreationFailed MaxSessionsReached)), v2)
         else case getValidToken_begin cfg v2 t3 of (p, x) \<Rightarrow> (AwaitToken p, x))"
      using True g None unfolding createSession_begin_def v2_def Let_def by simp
    show ?thesis
    proof (cases "int (length (activeSessions v1)) \<ge> maxSessions cfg
                 \<and> int (length (activeSessions v2)) \<ge> maxSessions cfg")
      case full: True
      with assms eq have "b = Returned (Inl (SessionCreationFailed MaxSessionsReached))" "w1 = v2"
        by simp_all
      with True v1 v2 full sub show ?thesis by (simp add: start_calls_def)
    next
      case room: False
      obtain p v3 where t: "getValidToken_begin cfg v2 t3 = (p, v3)"
        by (cases "getValidToken_begin cfg v2 t3")
      with assms eq room have bw: "b = AwaitToken p" "w1 = v3"
        by simp_all
      have small: "int (length (activeSessions v2)) < maxSessions cfg"
        using room by (auto simp: v2_def split: if_splits)
      from getValidToken_begin_frame [OF t] have
        v3: "activeSessions v3 = activeSessions v2" "activeTasks v3 = activeTasks v2"
          "start_calls v3 = start_calls v2" by simp_all
      have "start_calls v2 = start_calls w" using v1 v2 by (simp add: start_calls_def)
      with True bw v1 v2 v3 small t sub show ?thesis by auto
    qed
  qed
qed

lemma createSession_finish_rejected:
  "createSession_finish cfg w ch src tgt opts tok tc te (Rejected e)
     = (Inl (SessionCreationFailed (SessionRequestRejected e)), w)"
  by (simp add: createSession_finish_def)

lemma createSession_finish_null:
  "createSession_finish cfg w ch src tgt opts tok tc te (Fulfilled None)
     = (Inl (SessionCreationFailed SessionResponseTypeError), w)"
  by (simp add: createSession_finish_def)

lemma createSession_finish_invalid:
  "session_id d = [] \<Longrightarrow>
     createSession_finish cfg w ch src tgt opts tok tc te (Fulfilled (Some d))
       = (Inl (SessionCreationFailed InvalidSessionResponse), w)"
  by (simp add: createSession_finish_def)

lemma createSession_finish_ok:
  "session_id d \<noteq> [] \<Longrightarrow> valid_time (te + cacheTimeout cfg) \<Longrightarrow>
     createSession_finish cfg w ch src tgt opts tok tc te (Fulfilled (Some d))
       = (Inr (sessionData cfg ch src tgt opts tok tc te d),
          w\<lparr>activeSessions :=
              AList.update ch (sessionData cfg ch src tgt opts tok tc te d) (activeSessions w)\<rparr>)"
  by (simp add: createSession_finish_def)

lemma createSession_finish_range:
  "session_id d \<noteq> [] \<Longrightarrow> \<not> valid_time (te + cacheTimeout cfg) \<Longrightarrow>
     createSession_finish cfg w ch src tgt opts tok tc te (Fulfilled (Some d))
       = (Inl (SessionCreationFailed SessionExpiryRangeError),
          w\<lparr>activeSessions :=
              AList.update ch (sessionData cfg ch src tgt opts tok tc te d) (activeSessions w)\<rparr>)"
  by (simp add: createSession_finish_def)

text \<open>
  The ways a call of \<^verbatim>\<open>createSession\<close> that nothing overlaps can end, with what each leaves
  in the store and in the log. In the last one the call reports an error although the
  provider has started the session and the store holds it.
\<close>

lemma createSession_cases [consumes 1, case_names unconfigured existing full token_failed
    options_null start_failed started stored_failed]:
  assumes "createSession cfg w ch src tgt opts env = (r, w')"
  obtains
    (unconfigured) "\<not> isAvailable cfg" "r = Inl (SessionCreationFailed ServiceNotConfigured)" "w' = w"
  | (existing) s where "isAvailable cfg" "r = Inr s" "w' = w"
      "map_of (activeSessions w) ch = Some s" "t_lookup env < expiresAt s"
  | (full) "isAvailable cfg" "r = Inl (SessionCreationFailed MaxSessionsReached)"
      "start_calls w' = start_calls w" "map_of (activeSessions w') ch = None"
      "length (activeSessions w') \<le> length (activeSessions w)"
      "maxSessions cfg \<le> int (length (activeSessions w'))"
      "map_of (activeSessions w') \<subseteq>\<^sub>m map_of (activeSessions w)"
  | (token_failed) e where "isAvailable cfg" "r = Inl (SessionCreationFailed (TokenFailure e))"
      "start_calls w' = start_calls w" "map_of (activeSessions w') ch = None"
      "length (activeSessions w') \<le> length (activeSessions w)"
      "int (length (activeSessions w')) < maxSessions cfg"
      "map_of (activeSessions w') \<subseteq>\<^sub>m map_of (activeSessions w)"
  | (options_null) "isAvailable cfg" "r = Inl (SessionCreationFailed OptionsTypeError)"
      "start_calls w' = start_calls w" "map_of (activeSessions w') ch = None"
      "length (activeSessions w') \<le> length (activeSessions w)"
      "int (length (activeSessions w')) < maxSessions cfg"
      "map_of (activeSessions w') \<subseteq>\<^sub>m map_of (activeSessions w)"
      "opts = None"
  | (start_failed) f where "isAvailable cfg" "r = Inl (SessionCreationFailed f)"
      "(\<exists>e. session_reply env = Rejected e \<and> f = SessionRequestRejected e)
       \<or> (session_reply env = Fulfilled None \<and> f = SessionResponseTypeError)
       \<or> (\<exists>d. session_reply env = Fulfilled (Some d) \<and> session_id d = []
              \<and> f = InvalidSessionResponse)"
      "start_calls w' = Suc (start_calls w)" "map_of (activeSessions w') ch = None"
      "length (activeSessions w') \<le> length (activeSessions w)"
      "int (length (activeSessions w')) < maxSessions cfg"
      "map_of (activeSessions w') \<subseteq>\<^sub>m map_of (activeSessions w)"
  | (started) d tok m where "isAvailable cfg" "session_reply env = Fulfilled (Some d)"
      "session_id d \<noteq> []"
      "r = Inr (sessionData cfg ch src tgt opts tok (t_created env) (t_expires env) d)"
      "activeSessions w' =
         AList.update ch (sessionData cfg ch src tgt opts tok (t_created env) (t_expires env) d) m"
      "map_of m ch = None" "length m \<le> length (activeSessions w)"
      "int (length m) < maxSessions cfg" "start_calls w' = Suc (start_calls w)"
      "map_of m \<subseteq>\<^sub>m map_of (activeSessions w)"
      "valid_time (t_expires env + cacheTimeout cfg)"
  | (stored_failed) d tok m where "isAvailable cfg" "session_reply env = Fulfilled (Some d)"
      "session_id d \<noteq> []"
      "r = Inl (SessionCreationFailed SessionExpiryRangeError)"
      "activeSessions w' =
         AList.update ch (sessionData cfg ch src tgt opts tok (t_created env) (t_expires env) d) m"
      "map_of m ch = None" "length m \<le> length (activeSessions w)"
      "int (length m) < maxSessions cfg" "start_calls w' = Suc (start_calls w)"
      "map_of m \<subseteq>\<^sub>m map_of (activeSessions w)"
      "\<not> valid_time (t_expires env + cacheTimeout cfg)"
proof -
  obtain b w1 where
    b: "createSession_begin cfg w ch (t_lookup env) (t_sweep env) (t_tokcheck env) = (b, w1)"
    by (cases "createSession_begin cfg w ch (t_lookup env) (t_sweep env) (t_tokcheck env)")
  note bc = createSession_begin_cases [OF b]
  then have calls: "start_calls w1 = start_calls w"
    and len: "length (activeSessions w1) \<le> length (activeSessions w)"
    and sub: "map_of (activeSessions w1) \<subseteq>\<^sub>m map_of (activeSessions w)"
    by simp_all
  show thesis
  proof (cases b)
    case (Returned r0)
    with b assms have rw: "r = r0" "w' = w1" by (simp_all add: createSession_def)
    show thesis
    proof (cases r0)
      case (Inl e)
      with bc Returned have
        "(e = SessionCreationFailed ServiceNotConfigured \<and> \<not> isAvailable cfg \<and> w1 = w)
         \<or> (e = SessionCreationFailed MaxSessionsReached \<and> isAvailable cfg
             \<and> map_of (activeSessions w1) ch = None
             \<and> int (length (activeSessions w1)) \<ge> maxSessions cfg)"
        by simp
      then show thesis
      proof (elim disjE conjE)
        assume "e = SessionCreationFailed ServiceNotConfigured" "\<not> isAvailable cfg" "w1 = w"
        then show thesis using rw Inl by (intro unconfigured) simp_all
      next
        assume "e = SessionCreationFailed MaxSessionsReached" "isAvailable cfg"
          "map_of (activeSessions w1) ch = None"
          "int (length (activeSessions w1)) \<ge> maxSessions cfg"
        then show thesis using rw Inl calls len sub by (intro full) simp_all
      qed
    next
      case (Inr s)
      with bc Returned have "isAvailable cfg" "w1 = w" "map_of (activeSessions w) ch = Some s"
        "t_lookup env < expiresAt s"
        by simp_all
      then show thesis using rw Inr by (intro existing [of s]) simp_all
    qed
  next
    case (AwaitToken p)
    with bc have av: "isAvailable cfg" and absent: "map_of (activeSessions w1) ch = None"
      and small: "int (length (activeSessions w1)) < maxSessions cfg"
      by simp_all
    obtain tokres w2 where
      t: "(case p of Some r \<Rightarrow> (r, w1)
          | None \<Rightarrow> getValidToken_resume w1 (t_tokcache env) (tok_reply env)) = (tokres, w2)"
      by (cases "(case p of Some r \<Rightarrow> (r, w1)
          | None \<Rightarrow> getValidToken_resume w1 (t_tokcache env) (tok_reply env))")
    have w2: "activeSessions w2 = activeSessions w1 \<and> outbound w2 = outbound w1"
    proof (cases p)
      case None
      with t have "getValidToken_resume w1 (t_tokcache env) (tok_reply env) = (tokres, w2)"
        by simp
      from getValidToken_resume_frame [OF this] show ?thesis by simp
    next
      case (Some r1)
      with t show ?thesis by simp
    qed
    have cs: "createSession cfg w ch src tgt opts env =
        (case createSession_token w2 ch src tgt opts tokres of
           (Inl e, w3) \<Rightarrow> (Inl e, w3)
         | (Inr tok, w3) \<Rightarrow>
             createSession_finish cfg w3 ch src tgt opts tok
               (t_created env) (t_expires env) (session_reply env))"
      unfolding createSession_def b AwaitToken using t by simp
    show thesis
    proof (cases tokres)
      case (Inl e)
      with cs assms have "r = Inl (SessionCreationFailed (TokenFailure e))" "w' = w2"
        by (simp_all add: createSession_token_def)
      then show thesis using av absent small len calls w2 sub
        by (intro token_failed [of e]) (simp_all add: start_calls_def)
    next
      case (Inr tok)
      show thesis
      proof (cases opts)
        case None
        with cs assms Inr have "r = Inl (SessionCreationFailed OptionsTypeError)" "w' = w2"
          by (simp_all add: createSession_token_def)
        then show thesis using av absent small len calls w2 sub None
          by (intro options_null) (simp_all add: start_calls_def)
      next
        case (Some obj)
        define w3 where
          "w3 = w2\<lparr>outbound := outbound w2 @ [SessionsPost (sessionRequest ch src tgt obj) tok]\<rparr>"
        have w3: "activeSessions w3 = activeSessions w1" "start_calls w3 = Suc (start_calls w)"
          using w2 calls by (simp_all add: w3_def start_calls_def)
        from cs assms Inr Some have fin: "createSession_finish cfg w3 ch src tgt opts tok
               (t_created env) (t_expires env) (session_reply env) = (r, w')"
          by (simp add: createSession_token_def w3_def)
        show thesis
        proof (cases "session_reply env")
          case (Rejected e)
          with fin have "r = Inl (SessionCreationFailed (SessionRequestRejected e))" "w' = w3"
            by (simp_all add: createSession_finish_rejected)
          then show thesis using av absent small len w3 Rejected sub
            by (intro start_failed [of "SessionRequestRejected e"]) simp_all
        next
          case (Fulfilled dopt)
          show thesis
          proof (cases dopt)
            case None
            with fin Fulfilled have
              "r = Inl (SessionCreationFailed SessionResponseTypeError)" "w' = w3"
              by (simp_all add: createSession_finish_null)
            then show thesis using av absent small len w3 Fulfilled None sub
              by (intro start_failed [of SessionResponseTypeError]) simp_all
          next
            case (Some d)
            show thesis
            proof (cases "session_id d = []")
              case True
              with fin Fulfilled Some have
                "r = Inl (SessionCreationFailed InvalidSessionResponse)" "w' = w3"
                by (simp_all add: createSession_finish_invalid)
              then show thesis using av absent small len w3 Fulfilled Some True sub
                by (intro start_failed [of InvalidSessionResponse]) simp_all
            next
              case False
              show thesis
              proof (cases "valid_time (t_expires env + cacheTimeout cfg)")
                case True
                with fin Fulfilled Some False have
                  "r = Inr (sessionData cfg ch src tgt opts tok (t_created env) (t_expires env) d)"
                  "w' = w3\<lparr>activeSessions := AList.update ch
                     (sessionData cfg ch src tgt opts tok (t_created env) (t_expires env) d)
                     (activeSessions w3)\<rparr>"
                  by (simp_all add: createSession_finish_ok)
                then show thesis using av absent small len w3 Fulfilled Some False sub True
                  by (intro started [of d tok "activeSessions w1"])
                     (simp_all add: start_calls_def)
              next
                case bad: False
                with fin Fulfilled Some False have
                  "r = Inl (SessionCreationFailed SessionExpiryRangeError)"
                  "w' = w3\<lparr>activeSessions := AList.update ch
                     (sessionData cfg ch src tgt opts tok (t_created env) (t_expires env) d)
                     (activeSessions w3)\<rparr>"
                  by (simp_all add: createSession_finish_range)
                then show thesis using av absent small len w3 Fulfilled Some False sub bad
                  by (intro stored_failed [of d tok "activeSessions w1"])
                     (simp_all add: start_calls_def)
              qed
            qed
          qed
        qed
      qed
    qed
  qed
qed

section \<open>Starting a session\<close>

lemma getSessionStatus_absent:
  "map_of (activeSessions w) ch = None \<Longrightarrow>
     hasSession (fst (getSessionStatus w t1 t2 ch)) = False \<and> snd (getSessionStatus w t1 t2 ch) = w"
  by (simp add: getSessionStatus_def getActiveSession_absent)

text \<open>
  Claim C2. When a start call for a channel has succeeded with session \<open>s\<close>, the store
  holds \<open>s\<close> for the channel; and as long as the store still holds \<open>s\<close> for the channel
  and the clock reading of the lookup is before \<open>expiresAt s\<close>, every further start call
  for the channel returns this same \<open>s\<close> (so the same \<open>sessionId\<close>) and leaves the world
  as it is: in particular the log of requests gets no second start request, whatever
  languages, options and answers the second call is given.
\<close>

theorem createSession_idempotent:
  "createSession cfg w ch src tgt opts env = (Inr s, w1) \<Longrightarrow>
     map_of (activeSessions w1) ch = Some s
     \<and> (\<forall>w2 src2 tgt2 opts2 env2.
          map_of (activeSessions w2) ch = Some s \<and> t_lookup env2 < expiresAt s \<longrightarrow>
          createSession cfg w2 ch src2 tgt2 opts2 env2 = (Inr s, w2))"
proof -
  assume a: "createSession cfg w ch src tgt opts env = (Inr s, w1)"
  from a have av: "isAvailable cfg"
    by (cases rule: createSession_cases) simp_all
  from a have stored: "map_of (activeSessions w1) ch = Some s"
    by (cases rule: createSession_cases) (simp_all add: AList.update_conv')
  have again: "createSession cfg w2 ch src2 tgt2 opts2 env2 = (Inr s, w2)"
    if "map_of (activeSessions w2) ch = Some s" "t_lookup env2 < expiresAt s"
    for w2 src2 tgt2 opts2 env2
    using that av by (simp add: createSession_def createSession_begin_existing)
  from stored again show ?thesis by blast
qed

theorem createSession_idempotent_witness:
  "createSession cfg0 initial_world ''room1'' ''en'' ''es'' opts0 env0
     = (Inr (sessionData cfg0 ''room1'' ''en'' ''es'' opts0 ''tok'' 1000 1000
               \<lparr>session_id = ''s1'', stream_url = None, websocket_url = None\<rparr>),
        snd (createSession cfg0 initial_world ''room1'' ''en'' ''es'' opts0 env0))
   \<and> t_lookup (env0\<lparr>t_lookup := 2000\<rparr>)
       < expiresAt (sessionData cfg0 ''room1'' ''en'' ''es'' opts0 ''tok'' 1000 1000
               \<lparr>session_id = ''s1'', stream_url = None, websocket_url = None\<rparr>)
   \<and> createSession cfg0 (snd (createSession cfg0 initial_world ''room1'' ''en'' ''es'' opts0 env0))
        ''room1'' ''en'' ''es'' opts0 (env0\<lparr>t_lookup := 2000\<rparr>)
     = (Inr (sessionData cfg0 ''room1'' ''en'' ''es'' opts0 ''tok'' 1000 1000
               \<lparr>session_id = ''s1'', stream_url = None, websocket_url = None\<rparr>),
        snd (createSession cfg0 initial_world ''room1'' ''en'' ''es'' opts0 env0))
   \<and> start_calls (snd (createSession cfg0 initial_world ''room1'' ''en'' ''es'' opts0 env0)) = 1"
proof -
  have first: "createSession cfg0 initial_world ''room1'' ''en'' ''es'' opts0 env0
     = (Inr (sessionData cfg0 ''room1'' ''en'' ''es'' opts0 ''tok'' 1000 1000
               \<lparr>session_id = ''s1'', stream_url = None, websocket_url = None\<rparr>),
        snd (createSession cfg0 initial_world ''room1'' ''en'' ''es'' opts0 env0))"
    by (simp add: createSession_def createSession_begin_def getActiveSession_def
        getValidToken_begin_def requestNewToken_begin_def cached_hit_def
        getValidToken_resume_def requestNewToken_resume_def createSession_token_def
        createSession_finish_def isAvailable_def truthy_def cfg0_def initial_world_def
        env0_def token_ok_def session_ok_def opts0_def token_expiry_def valid_time_def)
  have calls: "start_calls (snd (createSession cfg0 initial_world ''room1'' ''en'' ''es'' opts0 env0)) = 1"
    by (simp add: createSession_def createSession_begin_def getActiveSession_def
        getValidToken_begin_def requestNewToken_begin_def cached_hit_def
        getValidToken_resume_def requestNewToken_resume_def createSession_token_def
        createSession_finish_def isAvailable_def truthy_def cfg0_def initial_world_def
        env0_def token_ok_def session_ok_def start_calls_def opts0_def token_expiry_def valid_time_def)
  have live: "t_lookup (env0\<lparr>t_lookup := 2000\<rparr>)
       < expiresAt (sessionData cfg0 ''room1'' ''en'' ''es'' opts0 ''tok'' 1000 1000
               \<lparr>session_id = ''s1'', stream_url = None, websocket_url = None\<rparr>)"
    by (simp add: sessionData_def cfg0_def)
  from createSession_idempotent [OF first] live first calls show ?thesis
    by blast
qed

section \<open>A start that fails at the provider\<close>

text \<open>
  The part of a start call that runs when the provider's answer is a failure changes
  nothing, in whatever state it runs. For a call that nothing overlaps and that has sent
  its start request, a failing answer therefore gives the error that wraps the
  provider's failure, no session for the channel in the store, and a status query that
  reports \<open>hasSession = False\<close>.
\<close>

lemma createSession_provider_failure_alone:
  assumes call: "createSession cfg w ch src tgt opts env = (r, w')"
    and made: "start_calls w' = Suc (start_calls w)"
    and fail: "session_reply env = Rejected e"
  shows "r = Inl (SessionCreationFailed (SessionRequestRejected e))
     \<and> map_of (activeSessions w') ch = None
     \<and> hasSession (fst (getSessionStatus w' t1 t2 ch)) = False
     \<and> snd (getSessionStatus w' t1 t2 ch) = w'"
  using call
proof (cases rule: createSession_cases)
  case (start_failed f)
  with fail show ?thesis
    by (auto simp: getSessionStatus_absent)
qed (use made fail in simp_all)


section \<open>The window of a fresh session\<close>

text \<open>
  Claim C8 does not hold of the code at this input: the session record is built with two
  readings of the clock, \<^verbatim>\<open>createdAt: Date.now()\<close> and \<^verbatim>\<open>expiresAt: Date.now() + this.cacheTimeout\<close>.
  When the clock ticks between them (1000, then 1001) the session that
  \<^verbatim>\<open>getActiveSession\<close> returns right after the successful start is \<open>active\<close>, has
  \<open>createdAt = 1000\<close> and \<open>expiresAt = 3601001\<close>, which is not \<open>createdAt\<close> plus the
  session lifetime of 3600000.
\<close>

theorem expiry_window_two_clock_reads:
  "(case fst (getActiveSession
        (snd (createSession cfg0 initial_world ''room1'' ''en'' ''es'' opts0 env_tick))
        1001 ''room1'') of
      None \<Rightarrow> False
    | Some s \<Rightarrow>
        status s = ''active'' \<and> createdAt s = 1000 \<and> cacheTimeout cfg0 = 3600000
        \<and> expiresAt s = 3601001 \<and> expiresAt s \<noteq> createdAt s + cacheTimeout cfg0)"
  by (simp add: createSession_def createSession_begin_def getActiveSession_def
      getValidToken_begin_def requestNewToken_begin_def cached_hit_def
      getValidToken_resume_def requestNewToken_resume_def createSession_token_def
      createSession_finish_def sessionData_def isAvailable_def truthy_def cfg0_def
      initial_world_def env_tick_def env0_def token_ok_def session_ok_def opts0_def token_expiry_def valid_time_def)

text \<open>
  What does hold of a start that created a session: the status, the two clock readings in
  the record, and that a lookup before the expiry returns the record unchanged.
\<close>

lemma fresh_session_window:
  assumes "createSession cfg w ch src tgt opts env = (Inr s, w')"
    and "start_calls w' \<noteq> start_calls w"
  shows "status s = ''active'' \<and> createdAt s = t_created env
     \<and> expiresAt s = t_expires env + cacheTimeout cfg
     \<and> (\<forall>t. t < expiresAt s \<longrightarrow> getActiveSession w' t ch = (Some s, w'))"
  using assms
  by (cases rule: createSession_cases)
     (auto simp: sessionData_def AList.update_conv' getActiveSession_live)

text \<open>
  No call changes the record that the store holds for a channel, other than by removing
  it, except a start call that has sent a start request to the provider: an expiry is
  never extended in place.
\<close>

lemma createSession_keeps_records:
  assumes "createSession cfg w ch src tgt opts env = (r, w')"
    and "start_calls w' = start_calls w"
  shows "map_of (activeSessions w') \<subseteq>\<^sub>m map_of (activeSessions w)"
  using assms by (cases rule: createSession_cases) simp_all

lemma exec_keeps_records:
  assumes "map_of (activeSessions (exec cfg w c)) ch = Some s'"
  shows "map_of (activeSessions w) ch = Some s'
     \<or> (\<exists>src tgt opts env. c = CreateSession ch src tgt opts env
           \<and> start_calls (exec cfg w c) = Suc (start_calls w))"
proof -
  have sub: "map_of (activeSessions w) ch = Some s'"
    if "map_of (activeSessions (exec cfg w c)) \<subseteq>\<^sub>m map_of (activeSessions w)"
    using that assms by (auto simp: map_le_def dom_def)
  show ?thesis
  proof (cases c)
    case (CreateSession ch' src tgt opts env)
    obtain r w' where cs: "createSession cfg w ch' src tgt opts env = (r, w')"
      by (cases "createSession cfg w ch' src tgt opts env")
    from cs show ?thesis
    proof (cases rule: createSession_cases)
      case (started d tok m)
      show ?thesis
      proof (cases "ch = ch'")
        case True
        with started CreateSession cs show ?thesis by simp
      next
        case False
        with started(5) assms CreateSession cs have "map_of m ch = Some s'"
          by (simp add: AList.update_conv')
        with started(10) have "map_of (activeSessions w) ch = Some s'"
          by (auto simp: map_le_def dom_def)
        then show ?thesis ..
      qed
    next
      case (stored_failed d tok m)
      show ?thesis
      proof (cases "ch = ch'")
        case True
        with stored_failed CreateSession cs show ?thesis by simp
      next
        case False
        with stored_failed(5) assms CreateSession cs have "map_of m ch = Some s'"
          by (simp add: AList.update_conv')
        with stored_failed(10) have "map_of (activeSessions w) ch = Some s'"
          by (auto simp: map_le_def dom_def)
        then show ?thesis ..
      qed
    qed (use sub CreateSession cs in simp_all)
  next
    case (EndSession c' reply)
    then show ?thesis using sub by (simp add: endSession_store delete_map_le)
  next
    case (GetActiveSession now c')
    then show ?thesis using sub by (simp add: getActiveSession_map_le)
  next
    case (GetSessionStatus t1 t2 c')
    have "activeSessions (snd (getSessionStatus w t1 t2 c'))
        = activeSessions (snd (getActiveSession w t1 c'))"
      by (simp add: getSessionStatus_def split: prod.splits option.splits)
    with GetSessionStatus show ?thesis using sub by (simp add: getActiveSession_map_le)
  next
    case (GetAllActiveSessions clk)
    with assms show ?thesis by (simp add: getAllActiveSessions_def)
  next
    case (CleanupExpiredSessions now)
    then show ?thesis using sub by (simp add: cleanupExpiredSessions_def cleanup_loop_map_le)
  next
    case (GetValidToken env)
    obtain p w1 where b: "getValidToken_begin cfg w (t_check env) = (p, w1)"
      by (cases "getValidToken_begin cfg w (t_check env)")
    obtain r w2 where r: "getValidToken_resume w1 (t_cache env) (token_reply env) = (r, w2)"
      by (cases "getValidToken_resume w1 (t_cache env) (token_reply env)")
    have "activeSessions (snd (getValidToken cfg w env)) = activeSessions w"
      using getValidToken_begin_frame [OF b] getValidToken_resume_frame [OF r] b r
      by (cases p) (simp_all add: getValidToken_def)
    with GetValidToken assms show ?thesis by simp
  next
    case ClearCachedToken
    with assms show ?thesis by (simp add: clearCachedToken_def)
  next
    case (StoreTask c' info now)
    with assms show ?thesis by (simp add: storeTask_def split: option.splits if_splits)
  next
    case (StopTranslationTask c' reply)
    with assms show ?thesis
      by (simp add: stopTranslationTask_def Let_def
          split: option.splits axios_result.splits if_splits)
  qed
qed

section \<open>The session limit\<close>

lemma delete_shrinks:
  "map_of al k = Some v \<Longrightarrow> length (AList.delete k al) < length al"
proof -
  assume "map_of al k = Some v"
  then have "(k, v) \<in> set al" by (rule map_of_SomeD)
  then show ?thesis
    unfolding AList.delete_eq by (intro length_filter_less [of "(k, v)"]) simp_all
qed

lemma createSession_begin_full:
  "createSession_begin cfg w ch t1 t2 t3 = (Returned (Inl (SessionCreationFailed MaxSessionsReached)), w1)
   \<longleftrightarrow> isAvailable cfg \<and> fst (getActiveSession w t1 ch) = None
       \<and> maxSessions cfg \<le> int (length (activeSessions (snd (getActiveSession w t1 ch))))
       \<and> maxSessions cfg
           \<le> int (length (activeSessions (cleanupExpiredSessions (snd (getActiveSession w t1 ch)) t2)))
       \<and> w1 = cleanupExpiredSessions (snd (getActiveSession w t1 ch)) t2"
  by (cases "getActiveSession w t1 ch")
     (auto simp: createSession_begin_def Let_def split: option.splits prod.splits)

lemma createSession_full_begin:
  "createSession cfg w ch src tgt opts env = (Inl (SessionCreationFailed MaxSessionsReached), w')
   \<longleftrightarrow> createSession_begin cfg w ch (t_lookup env) (t_sweep env) (t_tokcheck env)
         = (Returned (Inl (SessionCreationFailed MaxSessionsReached)), w')"
proof
  assume "createSession_begin cfg w ch (t_lookup env) (t_sweep env) (t_tokcheck env)
         = (Returned (Inl (SessionCreationFailed MaxSessionsReached)), w')"
  then show "createSession cfg w ch src tgt opts env
      = (Inl (SessionCreationFailed MaxSessionsReached), w')"
    by (simp add: createSession_def)
next
  assume c: "createSession cfg w ch src tgt opts env
      = (Inl (SessionCreationFailed MaxSessionsReached), w')"
  obtain b w1 where
    b: "createSession_begin cfg w ch (t_lookup env) (t_sweep env) (t_tokcheck env) = (b, w1)"
    by (cases "createSession_begin cfg w ch (t_lookup env) (t_sweep env) (t_tokcheck env)")
  show "createSession_begin cfg w ch (t_lookup env) (t_sweep env) (t_tokcheck env)
         = (Returned (Inl (SessionCreationFailed MaxSessionsReached)), w')"
  proof (cases b)
    case (Returned r0)
    with b c show ?thesis by (simp add: createSession_def)
  next
    case (AwaitToken p)
    with b c have False
      by (auto simp: createSession_def createSession_token_def createSession_finish_def Let_def
          split: prod.splits sum.splits axios_result.splits option.splits if_splits)
    then show ?thesis ..
  qed
qed

lemma createSession_succeeds:
  assumes av: "isAvailable cfg" and ok: "answers_ok cfg opts env"
    and b: "createSession_begin cfg w ch (t_lookup env) (t_sweep env) (t_tokcheck env) = (b, w1)"
    and room: "b \<noteq> Returned (Inl (SessionCreationFailed MaxSessionsReached))"
  shows "\<exists>s. fst (createSession cfg w ch src tgt opts env) = Inr s"
proof (cases b)
  case (Returned r0)
  show ?thesis
  proof (cases r0)
    case (Inl e)
    with createSession_begin_cases [OF b] Returned av room show ?thesis by auto
  next
    case (Inr s)
    with b Returned show ?thesis by (simp add: createSession_def)
  qed
next
  case (AwaitToken p)
  with createSession_begin_cases [OF b] obtain v where
    v: "getValidToken_begin cfg v (t_tokcheck env) = (p, w1)"
    by auto
  obtain obj where obj: "opts = Some obj"
    using ok by (auto simp: answers_ok_def)
  obtain d where d: "tok_reply env = Fulfilled (Some d)" "access_token d \<noteq> []"
    "valid_date (token_expiry (t_tokcache env) (expires_in d))"
    using ok by (auto simp: answers_ok_def split: axios_result.splits option.splits)
  obtain d' where d': "session_reply env = Fulfilled (Some d')" "session_id d' \<noteq> []"
    using ok by (auto simp: answers_ok_def split: axios_result.splits option.splits)
  have valid: "valid_time (t_expires env + cacheTimeout cfg)"
    using ok by (simp add: answers_ok_def)
  have "\<exists>tok w2. (case p of Some r \<Rightarrow> (r, w1)
          | None \<Rightarrow> getValidToken_resume w1 (t_tokcache env) (tok_reply env)) = (Inr tok, w2)"
  proof (cases "cached_hit v (t_tokcheck env)")
    case None
    with v av have "p = None" by (simp add: getValidToken_begin_miss)
    with d show ?thesis by (simp add: getValidToken_resume_ok)
  next
    case (Some tok)
    with v have "p = Some (Inr tok)" by (simp add: getValidToken_begin_hit)
    then show ?thesis by simp
  qed
  then obtain tok w2 where "(case p of Some r \<Rightarrow> (r, w1)
          | None \<Rightarrow> getValidToken_resume w1 (t_tokcache env) (tok_reply env)) = (Inr tok, w2)"
    by blast
  with b AwaitToken d' obj valid show ?thesis
    by (simp add: createSession_def createSession_token_def createSession_finish_ok)
qed

lemma createSession_room:
  assumes av: "isAvailable cfg" and ok: "answers_ok cfg opts env"
    and room: "\<not> (maxSessions cfg \<le> int (length (activeSessions (snd (getActiveSession w (t_lookup env) ch))))
        \<and> maxSessions cfg \<le> int (length (activeSessions
              (cleanupExpiredSessions (snd (getActiveSession w (t_lookup env) ch)) (t_sweep env)))))"
  shows "\<exists>s. fst (createSession cfg w ch src tgt opts env) = Inr s"
proof -
  obtain b w1 where
    b: "createSession_begin cfg w ch (t_lookup env) (t_sweep env) (t_tokcheck env) = (b, w1)"
    by (cases "createSession_begin cfg w ch (t_lookup env) (t_sweep env) (t_tokcheck env)")
  have "b \<noteq> Returned (Inl (SessionCreationFailed MaxSessionsReached))"
    using b room by (auto simp: createSession_begin_full)
  from createSession_succeeds [OF av ok b this] show ?thesis .
qed

lemma start_after_expiry:
  assumes av: "isAvailable cfg" and ok: "answers_ok cfg opts env"
    and size: "int (length (activeSessions w)) \<le> maxSessions cfg"
    and old: "(c, s) \<in> set (activeSessions w)" "expiresAt s \<le> t_sweep env"
  shows "\<exists>s'. fst (createSession cfg w ch src tgt opts env) = Inr s'"
proof (rule createSession_room [OF av ok])
  show "\<not> (maxSessions cfg \<le> int (length (activeSessions (snd (getActiveSession w (t_lookup env) ch))))
        \<and> maxSessions cfg \<le> int (length (activeSessions
              (cleanupExpiredSessions (snd (getActiveSession w (t_lookup env) ch)) (t_sweep env)))))"
  proof (cases "snd (getActiveSession w (t_lookup env) ch) = w")
    case True
    have "length (cleanup_loop (t_sweep env) (activeSessions w) (activeSessions w))
        < length (activeSessions w)"
      using old by (rule cleanup_loop_expired_shrinks)
    with size True show ?thesis by (simp add: cleanupExpiredSessions_def)
  next
    case False
    then obtain s0 where "map_of (activeSessions w) ch = Some s0"
      "snd (getActiveSession w (t_lookup env) ch)
         = w\<lparr>activeSessions := AList.delete ch (activeSessions w)\<rparr>"
      by (auto simp: getActiveSession_def split: option.splits if_splits)
    with size delete_shrinks [of "activeSessions w" ch s0] show ?thesis by simp
  qed
qed

lemma start_after_stop:
  assumes av: "isAvailable cfg" and ok: "answers_ok cfg opts env"
    and size: "int (length (activeSessions w)) \<le> maxSessions cfg"
    and stored: "map_of (activeSessions w) c = Some s"
  shows "\<exists>s'. fst (createSession cfg (snd (endSession w c reply)) ch src tgt opts env) = Inr s'"
proof (rule createSession_room [OF av ok])
  let ?w = "snd (endSession w c reply)"
  have "length (activeSessions ?w) < length (activeSessions w)"
    using stored by (simp add: endSession_store delete_shrinks)
  moreover have "length (activeSessions (snd (getActiveSession ?w (t_lookup env) ch)))
      \<le> length (activeSessions ?w)"
    by (rule getActiveSession_length)
  ultimately show "\<not> (maxSessions cfg
         \<le> int (length (activeSessions (snd (getActiveSession ?w (t_lookup env) ch))))
        \<and> maxSessions cfg \<le> int (length (activeSessions
              (cleanupExpiredSessions (snd (getActiveSession ?w (t_lookup env) ch)) (t_sweep env)))))"
    using size by simp
qed

section \<open>The session limit in runs\<close>

lemma update_length: "length (AList.update k v al) \<le> Suc (length al)"
  by (induction al) auto

lemma createSession_size:
  assumes "int (length (activeSessions w)) \<le> maxSessions cfg"
  shows "int (length (activeSessions (snd (createSession cfg w ch src tgt opts env)))) \<le> maxSessions cfg"
proof -
  obtain r w' where c: "createSession cfg w ch src tgt opts env = (r, w')"
    by (cases "createSession cfg w ch src tgt opts env")
  from c have "int (length (activeSessions w')) \<le> maxSessions cfg"
  proof (cases rule: createSession_cases)
    case (started d tok m)
    have "length (activeSessions w') \<le> Suc (length m)"
      unfolding started(5) by (rule update_length)
    with started(8) show ?thesis by simp
  next
    case (stored_failed d tok m)
    have "length (activeSessions w') \<le> Suc (length m)"
      unfolding stored_failed(5) by (rule update_length)
    with stored_failed(8) show ?thesis by simp
  qed (use assms in simp_all)
  with c show ?thesis by simp
qed

lemma exec_size:
  assumes "int (length (activeSessions w)) \<le> maxSessions cfg"
  shows "int (length (activeSessions (exec cfg w c))) \<le> maxSessions cfg"
proof (cases c)
  case (CreateSession ch src tgt opts env)
  with assms show ?thesis by (simp add: createSession_size)
next
  case (EndSession ch reply)
  have "length (activeSessions (snd (endSession w ch reply))) \<le> length (activeSessions w)"
    by (simp add: endSession_store AList.length_delete_le)
  with assms EndSession show ?thesis by simp
next
  case (GetActiveSession now ch)
  with assms getActiveSession_length [of w now ch] show ?thesis by simp
next
  case (GetSessionStatus t1 t2 ch)
  have "activeSessions (snd (getSessionStatus w t1 t2 ch))
      = activeSessions (snd (getActiveSession w t1 ch))"
    by (simp add: getSessionStatus_def split: prod.splits option.splits)
  with assms GetSessionStatus getActiveSession_length [of w t1 ch] show ?thesis by simp
next
  case (GetAllActiveSessions clk)
  with assms show ?thesis by (simp add: getAllActiveSessions_def)
next
  case (CleanupExpiredSessions now)
  have "length (activeSessions (cleanupExpiredSessions w now)) \<le> length (activeSessions w)"
    by (simp add: cleanupExpiredSessions_def cleanup_loop_length)
  with assms CleanupExpiredSessions show ?thesis by simp
next
  case (GetValidToken env)
  obtain p w1 where b: "getValidToken_begin cfg w (t_check env) = (p, w1)"
    by (cases "getValidToken_begin cfg w (t_check env)")
  obtain r w2 where r: "getValidToken_resume w1 (t_cache env) (token_reply env) = (r, w2)"
    by (cases "getValidToken_resume w1 (t_cache env) (token_reply env)")
  have "activeSessions (snd (getValidToken cfg w env)) = activeSessions w"
    using getValidToken_begin_frame [OF b] getValidToken_resume_frame [OF r] b r
    by (cases p) (simp_all add: getValidToken_def)
  with assms GetValidToken show ?thesis by simp
next
  case ClearCachedToken
  with assms show ?thesis by (simp add: clearCachedToken_def)
next
  case (StoreTask ch info now)
  with assms show ?thesis by (simp add: storeTask_def split: option.splits)
next
  case (StopTranslationTask ch reply)
  with assms show ?thesis
    by (simp add: stopTranslationTask_def Let_def split: option.splits axios_result.splits)
qed

lemma foldl_exec_size:
  "int (length (activeSessions w)) \<le> maxSessions cfg \<Longrightarrow>
     int (length (activeSessions (foldl (exec cfg) w calls))) \<le> maxSessions cfg"
  by (induction calls arbitrary: w) (simp_all add: exec_size)

lemma run_size:
  "0 \<le> maxSessions cfg \<Longrightarrow> int (length (activeSessions (run cfg calls))) \<le> maxSessions cfg"
  unfolding run_def by (rule foldl_exec_size) (simp add: initial_world_def)

lemma live_sessions_le: "live_sessions w now \<le> length (activeSessions w)"
  by (simp add: live_sessions_def)

text \<open>
  Claim C6 does not hold of the code at this input: with a maximum of one session, two
  start calls for two channels overlap. Each passes the limit check of lines 168-174 on
  the empty store and suspends at its \<^verbatim>\<open>await\<close> before the other has stored anything;
  when the answers have arrived the store holds two sessions, both unexpired, which
  exceeds the maximum of one.
\<close>

theorem overlapping_starts_exceed_limit:
  "maxSessions cfg_one = 1
   \<and> fst (createSession_begin cfg_one initial_world ''room1'' 1000 1000 1000) = AwaitToken None
   \<and> fst (createSession_begin cfg_one ov1 ''room2'' 1001 1001 1001) = AwaitToken None
   \<and> fst (getValidToken_resume ov2 1100 token_ok) = Inr ''tok''
   \<and> fst (getValidToken_resume ov3 1101 token_ok) = Inr ''tok''
   \<and> map_option sessionId (map_of (activeSessions ov6) ''room1'') = Some ''s1''
   \<and> map_option sessionId (map_of (activeSessions ov6) ''room2'') = Some ''s2''
   \<and> length (activeSessions ov6) = 2
   \<and> live_sessions ov6 1300 = 2"
  by (simp add: ov6_def ov5_def ov4_def ov3_def ov2_def ov1_def
      createSession_begin_def getActiveSession_def
      getValidToken_begin_def requestNewToken_begin_def cached_hit_def
      getValidToken_resume_def requestNewToken_resume_def createSession_token_def
      createSession_finish_def sessionData_def isAvailable_def truthy_def cfg_one_def cfg0_def
      initial_world_def token_ok_def session_ok_def live_sessions_def opts0_def
      token_expiry_def valid_time_def)

text \<open>
  What does hold of the limit when calls do not overlap. In every run from the start of
  the process, with a maximum that is not negative, the number of sessions in the store,
  and so the number of unexpired ones, never exceeds the maximum. A start call is
  rejected with \<open>MaxSessionsReached\<close> exactly when the service is configured, the channel
  has no unexpired session, the store is at the maximum after the lookup and is still at
  the maximum after the sweep that the call then runs; the world it leaves is the swept
  one. Hence with a store within the maximum, a session in it that has expired at the
  reading of the sweep, and inputs with which a call that reaches the provider succeeds,
  the start succeeds; and so does a start that follows the stop of a stored channel.
\<close>

lemma session_capacity_alone:
  "0 \<le> maxSessions cfg \<Longrightarrow>
     int (length (activeSessions (run cfg calls))) \<le> maxSessions cfg
     \<and> int (live_sessions (run cfg calls) now) \<le> maxSessions cfg
     \<and> (createSession cfg w ch src tgt opts env
           = (Inl (SessionCreationFailed MaxSessionsReached), w')
         \<longleftrightarrow> isAvailable cfg \<and> fst (getActiveSession w (t_lookup env) ch) = None
             \<and> maxSessions cfg
                 \<le> int (length (activeSessions (snd (getActiveSession w (t_lookup env) ch))))
             \<and> maxSessions cfg
                 \<le> int (length (activeSessions (cleanupExpiredSessions
                        (snd (getActiveSession w (t_lookup env) ch)) (t_sweep env))))
             \<and> w' = cleanupExpiredSessions (snd (getActiveSession w (t_lookup env) ch)) (t_sweep env))
     \<and> (isAvailable cfg \<and> answers_ok cfg opts env
          \<and> int (length (activeSessions w)) \<le> maxSessions cfg
          \<and> (c, s) \<in> set (activeSessions w) \<and> expiresAt s \<le> t_sweep env
         \<longrightarrow> (\<exists>s'. fst (createSession cfg w ch src tgt opts env) = Inr s'))
     \<and> (isAvailable cfg \<and> answers_ok cfg opts env
          \<and> int (length (activeSessions w)) \<le> maxSessions cfg
          \<and> map_of (activeSessions w) c = Some s
         \<longrightarrow> (\<exists>s'. fst (createSession cfg (snd (endSession w c reply)) ch src tgt opts env) = Inr s'))"
proof -
  assume m: "0 \<le> maxSessions cfg"
  have size: "int (length (activeSessions (run cfg calls))) \<le> maxSessions cfg"
    using m by (rule run_size)
  have live: "int (live_sessions (run cfg calls) now) \<le> maxSessions cfg"
    using size live_sessions_le [of "run cfg calls" now] by linarith
  have full: "createSession cfg w ch src tgt opts env
           = (Inl (SessionCreationFailed MaxSessionsReached), w')
         \<longleftrightarrow> isAvailable cfg \<and> fst (getActiveSession w (t_lookup env) ch) = None
             \<and> maxSessions cfg
                 \<le> int (length (activeSessions (snd (getActiveSession w (t_lookup env) ch))))
             \<and> maxSessions cfg
                 \<le> int (length (activeSessions (cleanupExpiredSessions
                        (snd (getActiveSession w (t_lookup env) ch)) (t_sweep env))))
             \<and> w' = cleanupExpiredSessions (snd (getActiveSession w (t_lookup env) ch)) (t_sweep env)"
    by (simp only: createSession_full_begin createSession_begin_full)
  have expired: "isAvailable cfg \<and> answers_ok cfg opts env
          \<and> int (length (activeSessions w)) \<le> maxSessions cfg
          \<and> (c, s) \<in> set (activeSessions w) \<and> expiresAt s \<le> t_sweep env
         \<longrightarrow> (\<exists>s'. fst (createSession cfg w ch src tgt opts env) = Inr s')"
    using start_after_expiry by blast
  have stopped: "isAvailable cfg \<and> answers_ok cfg opts env
          \<and> int (length (activeSessions w)) \<le> maxSessions cfg
          \<and> map_of (activeSessions w) c = Some s
         \<longrightarrow> (\<exists>s'. fst (createSession cfg (snd (endSession w c reply)) ch src tgt opts env) = Inr s')"
    using start_after_stop by blast
  from size live full expired stopped show ?thesis by blast
qed

end
